theory Spec2Isabelle
  imports Complex_Main
begin

section \<open>JavaScript values and strings\<close>

text \<open>
  The scripts under \<^verbatim>\<open>assets/\<close> are plain browser JavaScript. Strings are modelled as
  \<^typ>\<open>string\<close> over ASCII, numbers that carry money as the \<^typ>\<open>rat\<close> a double denotes
  (with the rounding of the product written out), hours as \<^typ>\<open>nat\<close>. A value whose JavaScript type the code
  tests at run time (\<^verbatim>\<open>Array.isArray\<close>, \<^verbatim>\<open>typeof note === 'string'\<close>) is a \<open>jsval\<close>.
\<close>

datatype jsval =
    JUndefined
  | JNull
  | JBool bool
  | JNum rat
  | JStr string
  | JArr "jsval list"

datatype js_error = TypeError

text \<open>\<^verbatim>\<open>String.prototype.toUpperCase\<close> on ASCII text.\<close>

definition toUpperChar :: "char \<Rightarrow> char" where
  "toUpperChar c =
     (case map_of (zip ''abcdefghijklmnopqrstuvwxyz'' ''ABCDEFGHIJKLMNOPQRSTUVWXYZ'') c of
        Some u \<Rightarrow> u
      | None \<Rightarrow> c)"

definition toUpperCase :: "string \<Rightarrow> string" where
  "toUpperCase s = map toUpperChar s"

text \<open>\<^verbatim>\<open>s.startsWith(p)\<close> and \<^verbatim>\<open>s.includes(p)\<close>.\<close>

fun startsWith :: "string \<Rightarrow> string \<Rightarrow> bool" where
  "startsWith s [] = True"
| "startsWith [] (p # ps) = False"
| "startsWith (c # cs) (p # ps) = (c = p \<and> startsWith cs ps)"

fun includes_str :: "string \<Rightarrow> string \<Rightarrow> bool" where
  "includes_str [] p = startsWith [] p"
| "includes_str (c # cs) p = (startsWith (c # cs) p \<or> includes_str cs p)"

text \<open>The regular-expression class \<^verbatim>\<open>\d\<close> and the value of a run of decimal digits
  (\<^verbatim>\<open>parseInt\<close> on text matched by \<^verbatim>\<open>\d+\<close>; exact, where a double loses precision
  above \<open>2^53\<close>).\<close>

definition isDigit :: "char \<Rightarrow> bool" where
  "isDigit c = (c \<in> set ''0123456789'')"

definition digitValue :: "char \<Rightarrow> nat" where
  "digitValue c = of_char c - 48"

definition parseInt :: "string \<Rightarrow> nat" where
  "parseInt ds = foldl (\<lambda>acc c. 10 * acc + digitValue c) 0 ds"

text \<open>
  \<^verbatim>\<open>Number(s)\<close> for the hour and minute parts of a time string. \<open>None\<close> is \<^verbatim>\<open>NaN\<close>.
  Only plain runs of decimal digits are converted (the empty string gives 0, as in
  JavaScript): the times of this program are written by \<open>generateTimeSlots\<close> as two
  digits, a colon and two digits. Text with a sign, a fraction, an exponent, a radix
  prefix or surrounding white space, which \<^verbatim>\<open>Number\<close> also converts, is outside the
  model and reads as \<open>None\<close>.
\<close>

definition Number_str :: "string \<Rightarrow> nat option" where
  "Number_str s = (if list_all isDigit s then Some (parseInt s) else None)"

text \<open>\<^verbatim>\<open>s.split(':')\<close>.\<close>

fun split_colon :: "string \<Rightarrow> string list" where
  "split_colon [] = [[]]"
| "split_colon (c # cs) =
     (if c = CHR '':'' then [] # split_colon cs
      else (case split_colon cs of
              [] \<Rightarrow> [[c]]
            | p # ps \<Rightarrow> (c # p) # ps))"

section \<open>Restriction parser (app.js)\<close>

record service =
  svc_id :: string
  title :: string
  category :: string
  duration :: string
  price :: rat
  svc_notes :: jsval

text \<open>
  \<^verbatim>\<open>restriction.match(/(\d+)(AM|PM)/i)\<close>: the leftmost match and its two groups.
  At a start position on a digit, the greedy \<^verbatim>\<open>\d+\<close> takes the whole run of digits;
  giving digits back cannot help, since the next character would be a digit and
  not \<open>A\<close> or \<open>P\<close>. So the attempt at a position succeeds exactly when the run is
  followed by AM or PM in either case; otherwise the search moves one character on.
\<close>

fun matchPeriod :: "string \<Rightarrow> string option" where
  "matchPeriod (a # m # rest) =
     (if (toUpperChar a = CHR ''A'' \<or> toUpperChar a = CHR ''P'') \<and> toUpperChar m = CHR ''M''
      then Some [a, m] else None)"
| "matchPeriod rest = None"

fun regexMatch :: "string \<Rightarrow> (string \<times> string) option" where
  "regexMatch [] = None"
| "regexMatch (c # cs) =
     (if isDigit c then
        (case matchPeriod (dropWhile isDigit cs) of
           Some ampm \<Rightarrow> Some (c # takeWhile isDigit cs, ampm)
         | None \<Rightarrow> regexMatch cs)
      else regexMatch cs)"

text \<open>The predicate given to \<^verbatim>\<open>notes.find\<close>.\<close>

definition isRestrictionNote :: "jsval \<Rightarrow> bool" where
  "isRestrictionNote note =
     (case note of
        JStr s \<Rightarrow> includes_str (toUpperCase s) ''DO NOT BOOK AFTER''
      | _ \<Rightarrow> False)"

text \<open>The two assignments to \<^verbatim>\<open>hours\<close>, in the order of the source.\<close>

definition to24h :: "nat \<Rightarrow> string \<Rightarrow> nat" where
  "to24h hours0 period =
     (let hours1 = (if period = ''PM'' \<and> hours0 \<noteq> 12 then hours0 + 12 else hours0);
          hours2 = (if period = ''AM'' \<and> hours1 = 12 then 0 else hours1)
      in hours2)"

text \<open>\<open>None\<close> is the \<^verbatim>\<open>null\<close> the function returns for "no restriction".\<close>

definition parseTimeRestriction :: "jsval \<Rightarrow> nat option" where
  "parseTimeRestriction ns =
     (case ns of
        JArr notes_list \<Rightarrow>
          (case find isRestrictionNote notes_list of
             Some (JStr restriction) \<Rightarrow>
               (case regexMatch restriction of
                  None \<Rightarrow> None
                | Some (digits, ampm) \<Rightarrow> Some (to24h (parseInt digits) (toUpperCase ampm)))
           | _ \<Rightarrow> None)
      | _ \<Rightarrow> None)"

text \<open>
  \<^verbatim>\<open>violatesTimeRestriction(service, timeString)\<close>. The time is read only after the
  \<^verbatim>\<open>null\<close> test; \<^verbatim>\<open>timeString.split\<close> on a value that is not a string raises.
\<close>

definition violatesTimeRestriction :: "service \<Rightarrow> jsval \<Rightarrow> js_error + bool" where
  "violatesTimeRestriction svc timeString =
     (case parseTimeRestriction (svc_notes svc) of
        None \<Rightarrow> Inr False
      | Some maxHour \<Rightarrow>
          (case timeString of
             JStr t \<Rightarrow>
               (case map Number_str (split_colon t) of
                  Some hours # rest \<Rightarrow> Inr (hours > maxHour)
                | _ \<Rightarrow> Inr False)
           | _ \<Rightarrow> Inl TypeError))"

section \<open>Browser storage and the availability resolver (app.js)\<close>

datatype booking_status = deposit_pending | deposit_paid | completed | cancelled | no_show

text \<open>\<^verbatim>\<open>formData.get\<close> gives \<^verbatim>\<open>null\<close> (\<open>None\<close>) for a field the form does not have.\<close>

record customer =
  customer_name :: "string option"
  customer_phone :: "string option"
  customer_email :: "string option"

text \<open>The body of \<^verbatim>\<open>POST /api/bookings\<close>, as \<open>handleBookingSubmit\<close> builds it.\<close>

record booking_data =
  serviceId :: string
  serviceTitle :: string
  date :: string
  time :: string
  customer :: customer
  booking_notes :: string
  depositPercent :: rat
  amountDue :: rat
  depositAmount :: rat

record booking = booking_data +
  booking_id :: string
  status :: booking_status
  createdAt :: string

text \<open>A calendar block as the admin script stores it under \<^verbatim>\<open>sb_blocks\<close>.\<close>

record block =
  block_id :: string
  block_date :: string
  block_type :: string
  block_notes :: string

text \<open>
  \<^verbatim>\<open>localStorage\<close>: a key that was never written reads as \<^verbatim>\<open>null\<close> (\<open>None\<close>).
  \<^verbatim>\<open>sb_bookings\<close> is shared by the client and the admin script; the client keeps
  its blackout dates under \<^verbatim>\<open>sb_blackout_dates\<close>, the admin script its blocks under
  \<^verbatim>\<open>sb_blocks\<close>.
\<close>

record storage =
  sb_bookings :: "booking list option"
  sb_blackout_dates :: "string list option"
  sb_blocks :: "block list option"

text \<open>\<^verbatim>\<open>JSON.parse(localStorage.getItem('sb_bookings') || '[]')\<close>\<close>

definition loadBookings :: "storage \<Rightarrow> booking list" where
  "loadBookings st = (case sb_bookings st of None \<Rightarrow> [] | Some bs \<Rightarrow> bs)"

record time_slot =
  slot_time :: string
  available :: bool
  label :: string

record availability =
  avail_date :: string
  slots :: "time_slot list"

text \<open>\<^verbatim>\<open>n.toString()\<close> for a non-negative integer, and \<^verbatim>\<open>s.padStart(2, '0')\<close>.\<close>

fun toString :: "nat \<Rightarrow> string" where
  "toString n =
     (if n < 10 then [''0123456789'' ! n]
      else toString (n div 10) @ [''0123456789'' ! (n mod 10)])"

declare toString.simps [simp del]

definition padStart2 :: "string \<Rightarrow> string" where
  "padStart2 s = (if length s < 2 then replicate (2 - length s) (CHR ''0'') @ s else s)"

text \<open>
  \<^verbatim>\<open>formatTimeLabel(time)\<close>. Both parts of the time are read with \<open>Number_str\<close>;
  for a time that is not digits, a colon and digits (the source would print
  \<^verbatim>\<open>NaN\<close> or raise on a missing minute part) the model gives the empty label.
\<close>

definition formatTimeLabel :: "string \<Rightarrow> string" where
  "formatTimeLabel t =
     (case map Number_str (split_colon t) of
        Some hours # Some minutes # rest \<Rightarrow>
          (let period = (if hours \<ge> 12 then ''PM'' else ''AM'');
               displayHours = (if hours > 12 then hours - 12 else (if hours = 0 then 12 else hours))
           in toString displayHours @ '':'' @ padStart2 (toString minutes) @ '' '' @ period)
      | _ \<Rightarrow> [])"

text \<open>The \<^verbatim>\<open>for\<close> loop of \<open>generateTimeSlots\<close>; \<^verbatim>\<open>slots.push\<close> appends.\<close>

function slot_loop :: "nat \<Rightarrow> nat \<Rightarrow> string list \<Rightarrow> time_slot list \<Rightarrow> time_slot list" where
  "slot_loop hour endHour bookedTimes acc =
     (if hour < endHour then
        (let t = padStart2 (toString hour) @ '':00'';
             avail = (t \<notin> set bookedTimes)
         in slot_loop (hour + 1) endHour bookedTimes
              (acc @ [\<lparr>slot_time = t, available = avail, label = formatTimeLabel t\<rparr>]))
      else acc)"
  by pat_completeness auto
termination
  by (relation "measure (\<lambda>(hour, endHour, bookedTimes, acc). endHour - hour)") auto

declare slot_loop.simps [simp del]

definition generateTimeSlots :: "storage \<Rightarrow> string \<Rightarrow> availability" where
  "generateTimeSlots st dateString =
     (let startHour = 7;
          endHour = 19;
          bookings = loadBookings st;
          dateBookings = filter (\<lambda>b. date b = dateString) bookings;
          bookedTimes = map time dateBookings
      in \<lparr>avail_date = dateString, slots = slot_loop startHour endHour bookedTimes []\<rparr>)"

text \<open>
  \<^verbatim>\<open>getBlackoutDates()\<close>. With nothing stored it draws three dates at random, stores
  and returns them; the drawn dates are the parameter \<open>drawn\<close>.
\<close>

definition getBlackoutDates :: "string list \<Rightarrow> storage \<Rightarrow> string list \<times> storage" where
  "getBlackoutDates drawn st =
     (case sb_blackout_dates st of
        Some stored \<Rightarrow> (stored, st)
      | None \<Rightarrow> (drawn, st\<lparr>sb_blackout_dates := Some drawn\<rparr>))"


section \<open>The mock gateway of the client (app.js)\<close>

text \<open>
  \<^verbatim>\<open>CONFIG.API_BASE_URL\<close> is empty in the shipped pages, so \<open>apiRequest\<close> hands every
  request to \<open>mockApiRequest\<close>; a configured backend is outside the model. A request
  is its method with the parsed endpoint: for \<^verbatim>\<open>GET /api/availability\<close> the value of
  the \<^verbatim>\<open>date\<close> query parameter (\<open>None\<close> when it is missing).
\<close>

datatype api_request =
    GetAvailability "string option"
  | PostBookings booking_data
  | OtherRequest string string

record booking_created =
  resp_bookingId :: string
  resp_status :: booking_status
  resp_amountDue :: rat
  resp_depositAmount :: rat
  resp_clientSecret :: string

datatype api_response =
    SlotsResponse availability
  | BlackoutResponse "string list"
  | BookingResponse booking_created

text \<open>What the page cannot compute: the clock and the random draw.\<close>

record env =
  now_ms :: nat
  now_iso :: string
  drawn_dates :: "string list"

text \<open>\<open>Inl\<close> is a rejected promise with the message of its \<^verbatim>\<open>Error\<close>.\<close>

definition mockApiRequest :: "env \<Rightarrow> api_request \<Rightarrow> storage \<Rightarrow> (string + api_response) \<times> storage" where
  "mockApiRequest e req st =
     (case req of
        GetAvailability dateParam \<Rightarrow>
          (case dateParam of
             Some (c # cs) \<Rightarrow> (Inr (SlotsResponse (generateTimeSlots st (c # cs))), st)
           | _ \<Rightarrow>
               (let (dates, st') = getBlackoutDates (drawn_dates e) st
                in (Inr (BlackoutResponse dates), st')))
      | PostBookings body \<Rightarrow>
          (let new_id = ''booking-'' @ toString (now_ms e);
               b = booking_data.extend body
                     (booking.fields new_id deposit_pending (now_iso e));
               bookings = loadBookings st;
               st' = st\<lparr>sb_bookings := Some (bookings @ [b])\<rparr>
           in (Inr (BookingResponse
                      \<lparr>resp_bookingId = booking_id b,
                       resp_status = deposit_pending,
                       resp_amountDue = amountDue b,
                       resp_depositAmount = depositAmount b,
                       resp_clientSecret = ''mock_client_secret_'' @ booking_id b\<rparr>), st'))
      | OtherRequest endpoint method \<Rightarrow>
          (Inl ''Endpoint not implemented in mock mode'', st))"

section \<open>Form validation and submission (app.js)\<close>

text \<open>A form control as \<open>validateField\<close> reads it.\<close>

record field =
  field_name :: string
  field_type :: string
  field_required :: bool
  field_value :: string

text \<open>White space (\<^verbatim>\<open>\s\<close>) within ASCII, and \<^verbatim>\<open>value.trim()\<close>.\<close>

definition isSpace :: "char \<Rightarrow> bool" where
  "isSpace c = (c \<in> set [CHR '' '', CHR 0x09, CHR 0x0A, CHR 0x0B, CHR 0x0C, CHR 0x0D])"

definition trim :: "string \<Rightarrow> string" where
  "trim s = rev (dropWhile isSpace (rev (dropWhile isSpace s)))"

text \<open>
  \<^verbatim>\<open>/^[^\s@]+@[^\s@]+\.[^\s@]+$/\<close>: a non-empty local part up to the first \<open>@\<close>,
  then a domain without \<open>@\<close> that has a dot with at least one character on each
  side; no white space anywhere.
\<close>

definition emailRegex_test :: "string \<Rightarrow> bool" where
  "emailRegex_test v =
     (let local_part = takeWhile (\<lambda>c. c \<noteq> CHR ''@'') v;
          rest = dropWhile (\<lambda>c. c \<noteq> CHR ''@'') v
      in (case rest of
            [] \<Rightarrow> False
          | a # domain_part \<Rightarrow>
              local_part \<noteq> [] \<and> list_all (\<lambda>c. \<not> isSpace c) local_part \<and>
              list_all (\<lambda>c. \<not> isSpace c \<and> c \<noteq> CHR ''@'') domain_part \<and>
              CHR ''.'' \<in> set (butlast (tl domain_part))))"

text \<open>\<^verbatim>\<open>/^\+?[\d\s\-\(\)]+$/\<close> and the digits left by \<^verbatim>\<open>value.replace(/\D/g, '')\<close>.\<close>

definition phoneChar :: "char \<Rightarrow> bool" where
  "phoneChar c = (isDigit c \<or> isSpace c \<or> c = CHR ''-'' \<or> c = CHR ''('' \<or> c = CHR '')'')"

definition phoneRegex_test :: "string \<Rightarrow> bool" where
  "phoneRegex_test v =
     (let body = (case v of [] \<Rightarrow> [] | c # cs \<Rightarrow> if c = CHR ''+'' then cs else c # cs)
      in body \<noteq> [] \<and> list_all phoneChar body)"

text \<open>The local variable \<^verbatim>\<open>error\<close> of \<open>validateField\<close>; \<open>[]\<close> is the empty string.\<close>

definition fieldError :: "field \<Rightarrow> string" where
  "fieldError f =
     (let v = trim (field_value f)
      in if field_required f \<and> v = [] then ''This field is required''
         else if field_type f = ''email'' \<and> v \<noteq> [] then
           (if \<not> emailRegex_test v then ''Please enter a valid email address'' else [])
         else if field_type f = ''tel'' \<and> v \<noteq> [] then
           (if \<not> phoneRegex_test v \<or> length (filter isDigit v) < 10
            then ''Please enter a valid phone number'' else [])
         else if field_name f = ''service'' \<and> v = [] then ''Please select a service''
         else if field_name f = ''time'' \<and> v = [] then ''Please select a time slot''
         else [])"

text \<open>\<open>validateField\<close> shows or clears the error beside the field and returns
  \<^verbatim>\<open>!error\<close> on both of its paths.\<close>

definition validateField :: "field \<Rightarrow> bool" where
  "validateField f = (fieldError f = [])"

text \<open>The part of \<^verbatim>\<open>STATE\<close> the booking form uses; \<open>None\<close> is \<^verbatim>\<open>null\<close>.\<close>

record app_state =
  selectedService :: "service option"
  selectedDate :: "string option"
  selectedTime :: "string option"

text \<open>The truth value of a string or \<^verbatim>\<open>null\<close>: the empty string is false as well.\<close>

definition truthy :: "string option \<Rightarrow> bool" where
  "truthy v = (case v of Some (c # cs) \<Rightarrow> True | _ \<Rightarrow> False)"



text \<open>\<^verbatim>\<open>formData.get(name)\<close>: the value of the first control of that name.\<close>

definition formData_get :: "field list \<Rightarrow> string \<Rightarrow> string option" where
  "formData_get fs n = map_option field_value (find (\<lambda>f. field_name f = n) fs)"

text \<open>
  JavaScript numbers are IEEE 754 doubles. A finite double is modelled as the
  rational it denotes, and an arithmetic operation as the exact operation followed
  by \<open>round_double\<close>: rounding to the nearest double, ties to the even significand.
  For a magnitude \<open>a\<close> the exponent \<open>e\<close> is found by halving down to below \<open>2^53\<close> and
  doubling up to \<open>2^52\<close>, not below the exponent \<open>-1074\<close> of the subnormal doubles;
  the result is the integer nearest to \<open>a / 2^e\<close> times \<open>2^e\<close>. Overflow to
  \<^verbatim>\<open>Infinity\<close> is not modelled; a finite price times 0.35 cannot overflow.
\<close>

definition round_half_even :: "rat \<Rightarrow> int" where
  "round_half_even q =
     (let f = \<lfloor>q\<rfloor>; d = q - of_int f
      in if d < 1 / 2 then f
         else if 1 / 2 < d then f + 1
         else if even f then f else f + 1)"

function scale_down :: "rat \<Rightarrow> int \<Rightarrow> rat \<times> int" where
  "scale_down a e = (if 2 ^ 53 \<le> a then scale_down (a / 2) (e + 1) else (a, e))"
  by pat_completeness auto
termination
proof (relation "measure (\<lambda>(a, e). nat \<lfloor>a\<rfloor>)")
  show "wf (measure (\<lambda>(a, e). nat \<lfloor>a\<rfloor>))" by simp
next
  fix a :: rat and e :: int
  assume big: "2 ^ 53 \<le> a"
  then have a2: "2 \<le> a" by simp
  have "(of_int \<lfloor>a / 2\<rfloor> :: rat) \<le> a / 2" by (rule of_int_floor_le)
  also have "\<dots> \<le> a - 1" using a2 by simp
  also have "\<dots> < of_int \<lfloor>a\<rfloor>" by linarith
  finally have "\<lfloor>a / 2\<rfloor> < \<lfloor>a\<rfloor>" by simp
  moreover have "0 < \<lfloor>a\<rfloor>" using a2 by simp
  ultimately show "((a / 2, e + 1), (a, e)) \<in> measure (\<lambda>(a, e). nat \<lfloor>a\<rfloor>)"
    by simp
qed

function scale_up :: "rat \<Rightarrow> int \<Rightarrow> rat \<times> int" where
  "scale_up a e = (if a < 2 ^ 52 \<and> - 1074 < e then scale_up (a * 2) (e - 1) else (a, e))"
  by pat_completeness auto
termination
  by (relation "measure (\<lambda>(a, e). nat (e + 1074))") auto

declare scale_down.simps [simp del]

declare scale_up.simps [simp del]

definition round_double :: "rat \<Rightarrow> rat" where
  "round_double x =
     (if x = 0 then 0
      else (let (a1, e1) = scale_down \<bar>x\<bar> 0;
                (a2, e2) = scale_up a1 e1
            in sgn x * of_int (round_half_even a2) * 2 powi e2))"

text \<open>The product \<^verbatim>\<open>x * y\<close> of two numbers.\<close>

definition jsMul :: "rat \<Rightarrow> rat \<Rightarrow> rat" where
  "jsMul x y = round_double (x * y)"

text \<open>
  \<^verbatim>\<open>CONFIG.DEPOSIT_PERCENT\<close> (the literal \<^verbatim>\<open>0.35\<close>, read as the nearest double),
  \<^verbatim>\<open>CONFIG.DEPOSIT_MIN\<close>, and the deposit
  \<^verbatim>\<open>Math.max(total * CONFIG.DEPOSIT_PERCENT, CONFIG.DEPOSIT_MIN)\<close> that both
  \<open>updateDepositCalculation\<close> and \<open>handleBookingSubmit\<close> compute.
\<close>

definition DEPOSIT_PERCENT :: rat where
  "DEPOSIT_PERCENT = round_double (35 / 100)"

definition DEPOSIT_MIN :: rat where
  "DEPOSIT_MIN = 15"

definition depositOf :: "rat \<Rightarrow> rat \<Rightarrow> rat \<Rightarrow> rat" where
  "depositOf total_price pct minimum = max (jsMul total_price pct) minimum"

text \<open>
  What one run of \<open>handleBookingSubmit\<close> leaves behind: the errors shown beside
  fields (field name and message, in form order), the toasts, the requests passed
  to \<open>apiRequest\<close>, the storage, and how the handler ended. Reading
  \<^verbatim>\<open>STATE.selectedService.price\<close> raises when no service is selected.
\<close>

datatype submit_end =
    Aborted
  | Threw js_error
  | Confirmed api_response
  | RequestFailed string

record submit_result =
  field_errors :: "(string \<times> string) list"
  toasts :: "string list"
  requests :: "api_request list"
  storage_after :: storage
  ended :: submit_end

definition handleBookingSubmit :: "env \<Rightarrow> field list \<Rightarrow> app_state \<Rightarrow> storage \<Rightarrow> submit_result" where
  "handleBookingSubmit e form_fields state st =
     (let requiredFields = filter field_required form_fields;
          shown = map (\<lambda>f. (field_name f, fieldError f))
                    (filter (\<lambda>f. \<not> validateField f) requiredFields);
          isValid1 = list_all validateField requiredFields;
          toast1 = (if \<not> truthy (selectedDate state) then [''Please select a date''] else []);
          toast2 = (if \<not> truthy (selectedTime state) then [''Please select a time''] else []);
          isValid = (isValid1 \<and> truthy (selectedDate state) \<and> truthy (selectedTime state))
      in if \<not> isValid then
           \<lparr>field_errors = shown, toasts = toast1 @ toast2, requests = [],
            storage_after = st, ended = Aborted\<rparr>
         else
           (case (selectedService state, selectedDate state, selectedTime state) of
              (Some svc, Some d, Some t) \<Rightarrow>
                (let total_price = price svc;
                     deposit = depositOf total_price DEPOSIT_PERCENT DEPOSIT_MIN;
                     bookingData =
                       \<lparr>serviceId = svc_id svc,
                        serviceTitle = title svc,
                        date = d,
                        time = t,
                        customer =
                          \<lparr>customer_name = formData_get form_fields ''name'',
                           customer_phone = formData_get form_fields ''phone'',
                           customer_email = formData_get form_fields ''email''\<rparr>,
                        booking_notes =
                          (case formData_get form_fields ''notes'' of
                             Some (c # cs) \<Rightarrow> c # cs
                           | _ \<Rightarrow> []),
                        depositPercent = DEPOSIT_PERCENT,
                        amountDue = total_price,
                        depositAmount = deposit\<rparr>;
                     req = PostBookings bookingData
                 in (case mockApiRequest e req st of
                       (Inr response, st') \<Rightarrow>
                         \<lparr>field_errors = shown,
                          toasts = [''Your booking has been created! Redirecting to payment...''],
                          requests = [req], storage_after = st', ended = Confirmed response\<rparr>
                     | (Inl msg, st') \<Rightarrow>
                         \<lparr>field_errors = shown,
                          toasts = [''Failed to create booking. Please try again or contact us directly.''],
                          requests = [req], storage_after = st', ended = RequestFailed msg\<rparr>))
            | _ \<Rightarrow>
                \<lparr>field_errors = shown, toasts = [], requests = [],
                 storage_after = st, ended = Threw TypeError\<rparr>))"

section \<open>Booking status updates (admin.js)\<close>

text \<open>\<^verbatim>\<open>Array.prototype.findIndex\<close>; \<open>None\<close> is \<open>-1\<close>.\<close>

fun findIndex :: "('a \<Rightarrow> bool) \<Rightarrow> 'a list \<Rightarrow> nat option" where
  "findIndex P [] = None"
| "findIndex P (x # xs) = (if P x then Some 0 else map_option Suc (findIndex P xs))"

text \<open>\<^verbatim>\<open>endpoint.split('/')\<close>, and \<^verbatim>\<open>Array.prototype.pop\<close> with \<open>None\<close> for
  \<^verbatim>\<open>undefined\<close>.\<close>

fun split_slash :: "string \<Rightarrow> string list" where
  "split_slash [] = [[]]"
| "split_slash (c # cs) =
     (if c = CHR ''/'' then [] # split_slash cs
      else (case split_slash cs of
              [] \<Rightarrow> [[c]]
            | p # ps \<Rightarrow> (c # p) # ps))"

definition pop :: "'a list \<Rightarrow> 'a option" where
  "pop xs = (if xs = [] then None else Some (last xs))"

text \<open>
  The admin script's \<open>mockApiRequest\<close> for the method \<^verbatim>\<open>PATCH\<close>, with the body
  \<^verbatim>\<open>{ status: newStatus }\<close> that \<open>updateBookingStatus\<close> sends. Only the branch for
  endpoints that start with \<^verbatim>\<open>/api/bookings/\<close> tests for \<^verbatim>\<open>PATCH\<close>; every other
  endpoint falls through to the final rejection. The id is the last segment of
  the endpoint, \<^verbatim>\<open>endpoint.split('/').pop()\<close>. The stored booking is overwritten by
  the spread \<^verbatim>\<open>{ ...bookings[index], ...updates }\<close>.
\<close>

definition mockApiRequest_patch :: "string \<Rightarrow> booking_status \<Rightarrow> storage \<Rightarrow> (string + booking) \<times> storage" where
  "mockApiRequest_patch endpoint newStatus st =
     (if startsWith endpoint ''/api/bookings/'' then
        (let id = pop (split_slash endpoint);
             bookings = loadBookings st
         in (case findIndex (\<lambda>b. Some (booking_id b) = id) bookings of
               Some index \<Rightarrow>
                 (let bookings' = bookings[index := (bookings ! index)\<lparr>status := newStatus\<rparr>]
                  in (Inr (bookings' ! index), st\<lparr>sb_bookings := Some bookings'\<rparr>))
             | None \<Rightarrow> (Inl ''Booking not found'', st)))
      else (Inl ''Endpoint not implemented'', st))"

text \<open>\<^verbatim>\<open>STATE.bookings\<close> of the admin page, the toast and the storage after
  \<open>updateBookingStatus(bookingId, newStatus)\<close>, which requests
  \<^verbatim>\<open>/api/bookings/${bookingId}\<close>. The page's own list is searched with the whole
  \<^verbatim>\<open>bookingId\<close>.\<close>

record update_result =
  state_bookings_after :: "booking list"
  update_storage_after :: storage
  update_toast :: string

definition updateBookingStatus :: "string \<Rightarrow> booking_status \<Rightarrow> booking list \<Rightarrow> storage \<Rightarrow> update_result" where
  "updateBookingStatus bookingId newStatus state_bookings st =
     (case mockApiRequest_patch (''/api/bookings/'' @ bookingId) newStatus st of
        (Inr updated, st') \<Rightarrow>
          \<lparr>state_bookings_after =
             (case findIndex (\<lambda>b. booking_id b = bookingId) state_bookings of
                Some i \<Rightarrow> state_bookings[i := (state_bookings ! i)\<lparr>status := newStatus\<rparr>]
              | None \<Rightarrow> state_bookings),
           update_storage_after = st',
           update_toast = ''Booking status updated''\<rparr>
      | (Inl msg, st') \<Rightarrow>
          \<lparr>state_bookings_after = state_bookings,
           update_storage_after = st',
           update_toast = ''Failed to update booking status''\<rparr>)"

text \<open>The status buttons \<open>openBookingDrawer\<close> renders for a booking, by the status
  each one requests.\<close>

definition drawerActions :: "booking_status \<Rightarrow> booking_status list" where
  "drawerActions s =
     (if s = deposit_pending then [deposit_paid] else []) @
     (if s = deposit_paid then [completed] else []) @
     (if s \<noteq> cancelled \<and> s \<noteq> no_show then [cancelled, no_show] else [])"

section \<open>Auxiliary definitions for the proofs\<close>

text \<open>The time string and the slot that one round of the loop in
  \<open>generateTimeSlots\<close> builds for an hour.\<close>

definition hourTime :: "nat \<Rightarrow> string" where
  "hourTime h = padStart2 (toString h) @ '':00''"

definition slotAt :: "string list \<Rightarrow> nat \<Rightarrow> time_slot" where
  "slotAt bookedTimes h =
     \<lparr>slot_time = hourTime h, available = (hourTime h \<notin> set bookedTimes),
      label = formatTimeLabel (hourTime h)\<rparr>"

text \<open>The text after the last \<open>/\<close> of a string (the whole string when it has none).\<close>

definition lastSegment :: "string \<Rightarrow> string" where
  "lastSegment s = rev (takeWhile (\<lambda>c. c \<noteq> CHR ''/'') (rev s))"

text \<open>
  The conversion rule in the words of the specification: 12PM is 12, 12AM is 0,
  otherwise the hour plus 12 for PM, and the hour unchanged for AM.
\<close>

definition spec_hour24 :: "nat \<Rightarrow> bool \<Rightarrow> nat" where
  "spec_hour24 h pm =
     (if pm \<and> h = 12 then 12
      else if \<not> pm \<and> h = 12 then 0
      else if pm then h + 12
      else h)"

text \<open>The text matched by \<^verbatim>\<open>(AM|PM)\<close> under the flag \<^verbatim>\<open>i\<close>.\<close>

definition isPeriod :: "string \<Rightarrow> bool" where
  "isPeriod p = (toUpperCase p = ''AM'' \<or> toUpperCase p = ''PM'')"

text \<open>The sample data of the repository's README: the service, a booking of it, a
  filled booking form, and a clock reading.\<close>

definition sample_service :: service where
  "sample_service =
     \<lparr>svc_id = ''smedium-bohemian-fulani'',
      title = ''Smedium Bohemian Fulani'',
      category = ''Bohemian Barbie'',
      duration = ''8h 30m'',
      price = 250,
      svc_notes = JArr [JStr ''SELECT'', JStr ''Human and braiding hair NOT included'',
                        JStr ''Base length is lower back'', JStr ''DO NOT BOOK AFTER 8AM'']\<rparr>"

definition sample_customer :: customer where
  "sample_customer =
     \<lparr>customer_name = Some ''Jane Doe'',
      customer_phone = Some ''+1 (555) 123-4567'',
      customer_email = Some ''jane@example.com''\<rparr>"

definition sample_booking_data :: booking_data where
  "sample_booking_data =
     \<lparr>serviceId = ''smedium-bohemian-fulani'',
      serviceTitle = ''Smedium Bohemian Fulani'',
      date = ''2025-11-15'',
      time = ''09:00'',
      customer = sample_customer,
      booking_notes = ''Customer notes here'',
      depositPercent = 35 / 100,
      amountDue = 250,
      depositAmount = 175 / 2\<rparr>"

definition sample_booking :: booking where
  "sample_booking =
     booking_data.extend sample_booking_data
       (booking.fields ''booking-1234567890'' deposit_pending ''2025-10-26T10:30:00Z'')"

definition sample_form :: "field list" where
  "sample_form =
     [\<lparr>field_name = ''service'', field_type = ''select-one'', field_required = True,
       field_value = ''smedium-bohemian-fulani''\<rparr>,
      \<lparr>field_name = ''name'', field_type = ''text'', field_required = True,
       field_value = ''Jane Doe''\<rparr>,
      \<lparr>field_name = ''phone'', field_type = ''tel'', field_required = True,
       field_value = ''+1 (555) 123-4567''\<rparr>,
      \<lparr>field_name = ''email'', field_type = ''email'', field_required = True,
       field_value = ''jane@example.com''\<rparr>,
      \<lparr>field_name = ''notes'', field_type = ''textarea'', field_required = False,
       field_value = ''Customer notes here''\<rparr>]"

definition sample_state :: app_state where
  "sample_state =
     \<lparr>selectedService = Some sample_service,
      selectedDate = Some ''2025-11-15'',
      selectedTime = Some ''09:00''\<rparr>"

definition sample_env :: env where
  "sample_env = \<lparr>now_ms = 1234567891, now_iso = ''2025-10-26T10:30:01Z'', drawn_dates = []\<rparr>"

definition empty_storage :: storage where
  "empty_storage = \<lparr>sb_bookings = None, sb_blackout_dates = None, sb_blocks = None\<rparr>"


definition booked_storage :: storage where
  "booked_storage =
     \<lparr>sb_bookings = Some [sample_booking], sb_blackout_dates = Some [], sb_blocks = None\<rparr>"

definition cancelled_storage :: storage where
  "cancelled_storage =
     \<lparr>sb_bookings = Some [sample_booking\<lparr>status := cancelled\<rparr>],
      sb_blackout_dates = Some [], sb_blocks = None\<rparr>"

text \<open>The sample form with the e-mail address \<open>not-an-email\<close>, and a storage in which
  2025-11-15 is a blackout date, carries a block, and has its 09:00 slot booked.\<close>

definition invalid_email_form :: "field list" where
  "invalid_email_form =
     [\<lparr>field_name = ''service'', field_type = ''select-one'', field_required = True,
       field_value = ''smedium-bohemian-fulani''\<rparr>,
      \<lparr>field_name = ''name'', field_type = ''text'', field_required = True,
       field_value = ''Jane Doe''\<rparr>,
      \<lparr>field_name = ''phone'', field_type = ''tel'', field_required = True,
       field_value = ''+1 (555) 123-4567''\<rparr>,
      \<lparr>field_name = ''email'', field_type = ''email'', field_required = True,
       field_value = ''not-an-email''\<rparr>,
      \<lparr>field_name = ''notes'', field_type = ''textarea'', field_required = False,
       field_value = ''Customer notes here''\<rparr>]"

definition taken_storage :: storage where
  "taken_storage =
     \<lparr>sb_bookings = Some [sample_booking],
      sb_blackout_dates = Some [''2025-11-15''],
      sb_blocks = Some [\<lparr>block_id = ''block-2'', block_date = ''2025-11-15'',
                         block_type = ''blackout'', block_notes = []\<rparr>]\<rparr>"

text \<open>The request body \<open>handleBookingSubmit\<close> builds from the form and the selection, and
  the booking the mock gateway stores for a body.\<close>

definition submittedData :: "field list \<Rightarrow> service \<Rightarrow> string \<Rightarrow> string \<Rightarrow> booking_data" where
  "submittedData fs svc d t =
     \<lparr>serviceId = svc_id svc,
      serviceTitle = title svc,
      date = d,
      time = t,
      customer =
        \<lparr>customer_name = formData_get fs ''name'',
         customer_phone = formData_get fs ''phone'',
         customer_email = formData_get fs ''email''\<rparr>,
      booking_notes = (case formData_get fs ''notes'' of Some (c # cs) \<Rightarrow> c # cs | _ \<Rightarrow> []),
      depositPercent = DEPOSIT_PERCENT,
      amountDue = price svc,
      depositAmount = depositOf (price svc) DEPOSIT_PERCENT DEPOSIT_MIN\<rparr>"

definition createdBooking :: "env \<Rightarrow> booking_data \<Rightarrow> booking" where
  "createdBooking e body =
     booking_data.extend body
       (booking.fields (''booking-'' @ toString (now_ms e)) deposit_pending (now_iso e))"

section \<open>Lemmas about the availability resolver\<close>

lemma slot_loop_map: "slot_loop h e bt acc = acc @ map (slotAt bt) [h..<e]"
proof (induction h e bt acc rule: slot_loop.induct)
  case (1 hour endHour bookedTimes acc)
  show ?case
  proof (cases "hour < endHour")
    case True
    then have upt: "[hour..<endHour] = hour # [hour + 1..<endHour]"
      by (simp add: upt_conv_Cons)
    have "slot_loop hour endHour bookedTimes acc =
            slot_loop (hour + 1) endHour bookedTimes (acc @ [slotAt bookedTimes hour])"
      using True
      by (subst slot_loop.simps) (simp add: slotAt_def hourTime_def Let_def)
    also have "\<dots> = (acc @ [slotAt bookedTimes hour]) @ map (slotAt bookedTimes) [hour + 1..<endHour]"
      using "1.IH" [OF True refl refl] by (simp add: slotAt_def hourTime_def)
    finally show ?thesis by (simp add: upt)
  next
    case False
    then show ?thesis by (subst slot_loop.simps) simp
  qed
qed

lemma generateTimeSlots_slots:
  "slots (generateTimeSlots st d) =
     map (slotAt (map time (filter (\<lambda>b. date b = d) (loadBookings st)))) [7..<19]"
  by (simp add: generateTimeSlots_def Let_def slot_loop_map)

lemma hourTime_values:
  "hourTime 7 = ''07:00''" "hourTime 8 = ''08:00''" "hourTime 9 = ''09:00''"
  "hourTime 10 = ''10:00''" "hourTime 11 = ''11:00''" "hourTime 12 = ''12:00''"
  "hourTime 13 = ''13:00''" "hourTime 14 = ''14:00''" "hourTime 15 = ''15:00''"
  "hourTime 16 = ''16:00''" "hourTime 17 = ''17:00''" "hourTime 18 = ''18:00''"
  by (simp_all add: hourTime_def padStart2_def toString.simps)

lemma upt_7_19: "[7..<19] = [7, 8, 9, 10, 11, 12, 13, 14, 15, 16, 17, 18 :: nat]"
  by (simp add: upt_rec)


lemma available_iff_unbooked:
  assumes "s \<in> set (slots (generateTimeSlots st d))"
  shows "available s = (\<forall>b \<in> set (loadBookings st). \<not> (date b = d \<and> time b = slot_time s))"
proof -
  let ?bt = "map time (filter (\<lambda>b. date b = d) (loadBookings st))"
  from assms obtain h where s: "s = slotAt ?bt h"
    by (auto simp: generateTimeSlots_slots)
  have "available s = (slot_time s \<notin> set ?bt)"
    by (simp add: s slotAt_def)
  also have "\<dots> = (\<forall>b \<in> set (loadBookings st). \<not> (date b = d \<and> time b = slot_time s))"
    by (simp add: image_iff) metis
  finally show ?thesis .
qed

section \<open>Lemmas about the gateway and the submit handler\<close>

lemma createdBooking_fields:
  "date (createdBooking e body) = date body"
  "time (createdBooking e body) = time body"
  "status (createdBooking e body) = deposit_pending"
  "amountDue (createdBooking e body) = amountDue body"
  "depositAmount (createdBooking e body) = depositAmount body"
  "booking_id (createdBooking e body) = ''booking-'' @ toString (now_ms e)"
  by (simp_all add: createdBooking_def booking_data.extend_def booking.fields_def
        booking.defs booking_data.defs)

lemma mockApiRequest_post:
  "mockApiRequest e (PostBookings body) st =
     (Inr (BookingResponse
             \<lparr>resp_bookingId = booking_id (createdBooking e body),
              resp_status = deposit_pending,
              resp_amountDue = amountDue body,
              resp_depositAmount = depositAmount body,
              resp_clientSecret = ''mock_client_secret_'' @ booking_id (createdBooking e body)\<rparr>),
      st\<lparr>sb_bookings := Some (loadBookings st @ [createdBooking e body])\<rparr>)"
  unfolding mockApiRequest_def Let_def createdBooking_def[symmetric]
  by (simp add: createdBooking_fields)

lemma truthy_Some: "truthy v = (\<exists>c cs. v = Some (c # cs))"
  by (auto simp: truthy_def split: option.splits list.splits)

lemma handleBookingSubmit_invalid:
  assumes "\<not> (list_all validateField (filter field_required fs) \<and>
              truthy (selectedDate state) \<and> truthy (selectedTime state))"
  shows "handleBookingSubmit e fs state st =
     \<lparr>field_errors = map (\<lambda>f. (field_name f, fieldError f))
                       (filter (\<lambda>f. \<not> validateField f) (filter field_required fs)),
      toasts = (if \<not> truthy (selectedDate state) then [''Please select a date''] else []) @
               (if \<not> truthy (selectedTime state) then [''Please select a time''] else []),
      requests = [], storage_after = st, ended = Aborted\<rparr>"
  using assms unfolding handleBookingSubmit_def Let_def by (simp only: if_True simp_thms)

lemma handleBookingSubmit_valid:
  assumes fields: "list_all validateField (filter field_required fs)"
      and svc: "selectedService state = Some svc"
      and d: "selectedDate state = Some d" "d \<noteq> []"
      and t: "selectedTime state = Some t" "t \<noteq> []"
  shows "handleBookingSubmit e fs state st =
     \<lparr>field_errors = [],
      toasts = [''Your booking has been created! Redirecting to payment...''],
      requests = [PostBookings (submittedData fs svc d t)],
      storage_after =
        st\<lparr>sb_bookings := Some (loadBookings st @ [createdBooking e (submittedData fs svc d t)])\<rparr>,
      ended = Confirmed (BookingResponse
             \<lparr>resp_bookingId = ''booking-'' @ toString (now_ms e),
              resp_status = deposit_pending,
              resp_amountDue = price svc,
              resp_depositAmount = depositOf (price svc) DEPOSIT_PERCENT DEPOSIT_MIN,
              resp_clientSecret = ''mock_client_secret_'' @ ''booking-'' @ toString (now_ms e)\<rparr>)\<rparr>"
proof -
  have td: "truthy (Some d)" and tt: "truthy (Some t)"
    using d t by (auto simp: truthy_Some neq_Nil_conv)
  have none: "filter (\<lambda>f. field_required f \<and> \<not> validateField f) fs = []"
    using fields by (auto simp: list_all_iff filter_empty_conv)
  show ?thesis
    unfolding handleBookingSubmit_def Let_def submittedData_def[symmetric]
    by (simp add: fields td tt svc d t none mockApiRequest_post submittedData_def
          createdBooking_fields)
qed

lemma handleBookingSubmit_no_service:
  assumes "list_all validateField (filter field_required fs)"
      and "truthy (selectedDate state)" "truthy (selectedTime state)"
      and "selectedService state = None"
  shows "handleBookingSubmit e fs state st =
     \<lparr>field_errors = [], toasts = [], requests = [], storage_after = st,
      ended = Threw TypeError\<rparr>"
proof -
  have none: "filter (\<lambda>f. field_required f \<and> \<not> validateField f) fs = []"
    using assms(1) by (auto simp: list_all_iff filter_empty_conv)
  show ?thesis
    using assms unfolding handleBookingSubmit_def Let_def by (simp add: none)
qed

lemma loadBookings_update [simp]: "loadBookings (st\<lparr>sb_bookings := Some bs\<rparr>) = bs"
  by (simp add: loadBookings_def)

lemma sample_form_valid: "list_all validateField (filter field_required sample_form)"
  by (simp add: sample_form_def validateField_def fieldError_def trim_def isSpace_def
        emailRegex_test_def phoneRegex_test_def phoneChar_def isDigit_def)

section \<open>Deposit calculation\<close>

lemma round_half_even_near:
  assumes "of_int n - 1 / 2 < q" "q < of_int n + 1 / 2"
  shows "round_half_even q = n"
proof (cases "of_int n \<le> q")
  case True
  with assms(2) have "\<lfloor>q\<rfloor> = n"
    by (intro floor_unique) simp_all
  with assms(2) show ?thesis
    by (simp add: round_half_even_def Let_def)
next
  case False
  with assms(1) have fl: "\<lfloor>q\<rfloor> = n - 1"
    by (intro floor_unique) simp_all
  from assms(1) have "1 / 2 < q - of_int (n - 1)" by simp
  with fl show ?thesis
    by (simp add: round_half_even_def Let_def)
qed

lemma round_half_even_tie:
  assumes "q = of_int f + 1 / 2"
  shows "round_half_even q = (if even f then f else f + 1)"
proof -
  from assms have "\<lfloor>q\<rfloor> = f"
    by (intro floor_unique) simp_all
  with assms show ?thesis
    by (simp add: round_half_even_def Let_def)
qed

lemma scale_up_doublings:
  "2 ^ 52 \<le> a * 2 ^ k \<Longrightarrow> a * 2 ^ k < 2 ^ 53 \<Longrightarrow> int k \<le> e + 1074 \<Longrightarrow>
     scale_up a e = (a * 2 ^ k, e - int k)"
proof (induction k arbitrary: a e)
  case 0
  then show ?case by (subst scale_up.simps) simp
next
  case (Suc k)
  have "a * 2 ^ Suc k = a * 2 * 2 ^ k" by simp
  have pos: "(1::rat) \<le> 2 ^ k" by simp
  from Suc.prems(2) have lt: "a * 2 * 2 ^ k < 2 ^ 53" by simp
  have small: "a < 2 ^ 52"
  proof (cases "a \<le> 0")
    case True
    have "(0::rat) < 2 ^ 52" by simp
    with True show ?thesis by linarith
  next
    case False
    then have "0 \<le> a * 2" by simp
    then have "a * 2 * 1 \<le> a * 2 * 2 ^ k"
      using pos by (rule mult_left_mono [rotated])
    with lt have "a * 2 < 2 ^ 53" by simp
    then show ?thesis by simp
  qed
  from Suc.prems(3) have e: "- 1074 < e" by simp
  have "scale_up a e = scale_up (a * 2) (e - 1)"
    using small e by (subst scale_up.simps) simp
  also have "\<dots> = (a * 2 * 2 ^ k, e - 1 - int k)"
    using Suc.prems by (intro Suc.IH) simp_all
  finally show ?case by simp
qed

lemma round_double_below:
  assumes "0 < x" "x < 2 ^ 53" "2 ^ 52 \<le> x * 2 ^ k" "x * 2 ^ k < 2 ^ 53" "k \<le> 1074"
  shows "round_double x = of_int (round_half_even (x * 2 ^ k)) / 2 ^ k"
proof -
  have d: "scale_down x 0 = (x, 0)"
    using assms(1,2) by (subst scale_down.simps) simp
  have u: "scale_up x 0 = (x * 2 ^ k, - int k)"
    using scale_up_doublings [of x k 0] assms(3-5) by simp
  have p: "(2::rat) powi (- int k) = 1 / 2 ^ k"
    by (simp add: power_int_minus divide_inverse)
  from assms(1) have ab: "\<bar>x\<bar> = x" and sg: "sgn x = 1" and nz: "x \<noteq> 0"
    by simp_all
  show ?thesis
    unfolding round_double_def ab sg
    by (simp add: nz d u p)
qed

lemma deposit_percent_value: "DEPOSIT_PERCENT = 6305039478318694 / 2 ^ 54"
proof -
  have "round_half_even (35 / 100 * 2 ^ 54) = 6305039478318694"
    by (rule round_half_even_near) simp_all
  then show ?thesis
    unfolding DEPOSIT_PERCENT_def
    by (subst round_double_below [where k = 54]) simp_all
qed

lemma jsMul_250: "jsMul 250 DEPOSIT_PERCENT = 175 / 2"
proof -
  have "round_half_even (250 * (6305039478318694 / 2 ^ 54) * 2 ^ 46) = 6157265115545600"
    by (rule round_half_even_near) simp_all
  then show ?thesis
    unfolding jsMul_def deposit_percent_value
    by (subst round_double_below [where k = 46]) simp_all
qed

lemma jsMul_45: "jsMul 45 DEPOSIT_PERCENT = 8866461766385663 / 2 ^ 49"
proof -
  have "round_half_even (45 * (6305039478318694 / 2 ^ 54) * 2 ^ 49) = 8866461766385663"
    by (rule round_half_even_near) simp_all
  then show ?thesis
    unfolding jsMul_def deposit_percent_value
    by (subst round_double_below [where k = 49]) simp_all
qed

lemma jsMul_10: "jsMul 10 DEPOSIT_PERCENT = 7 / 2"
proof -
  have "round_half_even (10 * (6305039478318694 / 2 ^ 54) * 2 ^ 51)
          = (if even (7881299347898367::int) then 7881299347898367 else 7881299347898367 + 1)"
    by (rule round_half_even_tie) simp
  then have "round_half_even (10 * (6305039478318694 / 2 ^ 54) * 2 ^ 51) = 7881299347898368"
    by simp
  then show ?thesis
    unfolding jsMul_def deposit_percent_value
    by (subst round_double_below [where k = 51]) simp_all
qed

text \<open>
  Claim C4, the part that fails. The claim says the deposit never exceeds the price
  when \<open>price * pct \<le> price\<close>. For a price of 10 the product is 3.5, below the price,
  and the configured minimum of 15 wins: \<^verbatim>\<open>Math.max(10 * 0.35, 15)\<close> is 15, more than
  the price.
\<close>

theorem deposit_exceeds_price_counterexample:
  "(0::rat) \<le> 10 \<and> jsMul 10 DEPOSIT_PERCENT \<le> 10 \<and>
   depositOf 10 DEPOSIT_PERCENT DEPOSIT_MIN = 15 \<and>
   \<not> depositOf 10 DEPOSIT_PERCENT DEPOSIT_MIN \<le> 10"
  by (simp add: depositOf_def jsMul_10 DEPOSIT_MIN_def)

text \<open>
  Claim C4, amended. For every price, percent and minimum the deposit is the
  greater of the minimum and the product \<open>price * pct\<close> as JavaScript computes it,
  the exact product rounded to the nearest double; it is at most the price
  whenever that product is at most the price and also \<open>min \<le> price\<close>. A price of
  250 at the configured 0.35 with minimum 15 gives 87.50; a price of 45 gives
  15.749999999999998, the double below 15.75. A submission that passes validation
  stores a booking whose \<open>amountDue\<close> is the price of the selected service and whose
  \<open>depositAmount\<close> is that deposit for the configured percent and minimum, with
  status \<open>deposit_pending\<close>.
\<close>

theorem deposit_amount_of_booking:
  assumes "list_all validateField (filter field_required fs)"
      and "selectedService state = Some svc"
      and "selectedDate state = Some d" and "d \<noteq> []"
      and "selectedTime state = Some t" and "t \<noteq> []"
      and "0 \<le> p"
  shows "depositOf p pct m = max (jsMul p pct) m \<and>
         (jsMul p pct \<le> p \<and> m \<le> p \<longrightarrow> depositOf p pct m \<le> p) \<and>
         depositOf 250 DEPOSIT_PERCENT DEPOSIT_MIN = 175 / 2 \<and>
         depositOf 45 DEPOSIT_PERCENT DEPOSIT_MIN = 8866461766385663 / 2 ^ 49 \<and>
         amountDue (last (loadBookings (storage_after (handleBookingSubmit e fs state st))))
           = price svc \<and>
         depositAmount (last (loadBookings (storage_after (handleBookingSubmit e fs state st))))
           = max (jsMul (price svc) DEPOSIT_PERCENT) DEPOSIT_MIN \<and>
         status (last (loadBookings (storage_after (handleBookingSubmit e fs state st))))
           = deposit_pending"
proof -
  have stored: "last (loadBookings (storage_after (handleBookingSubmit e fs state st)))
                  = createdBooking e (submittedData fs svc d t)"
    by (simp add: handleBookingSubmit_valid [OF assms(1-6)])
  have generic: "depositOf p pct m = max (jsMul p pct) m"
    by (simp add: depositOf_def)
  have bound: "jsMul p pct \<le> p \<and> m \<le> p \<longrightarrow> depositOf p pct m \<le> p"
    by (simp add: depositOf_def)
  have ex250: "depositOf 250 DEPOSIT_PERCENT DEPOSIT_MIN = 175 / 2"
    by (simp add: depositOf_def jsMul_250 DEPOSIT_MIN_def)
  have ex45: "depositOf 45 DEPOSIT_PERCENT DEPOSIT_MIN = 8866461766385663 / 2 ^ 49"
    by (simp add: depositOf_def jsMul_45 DEPOSIT_MIN_def)
  have due: "amountDue (last (loadBookings (storage_after (handleBookingSubmit e fs state st))))
           = price svc"
    by (simp add: stored createdBooking_fields submittedData_def)
  have dep: "depositAmount (last (loadBookings (storage_after (handleBookingSubmit e fs state st))))
           = max (jsMul (price svc) DEPOSIT_PERCENT) DEPOSIT_MIN"
    by (simp add: stored createdBooking_fields submittedData_def depositOf_def)
  have stat: "status (last (loadBookings (storage_after (handleBookingSubmit e fs state st))))
           = deposit_pending"
    by (simp add: stored createdBooking_fields)
  show ?thesis
    using generic bound ex250 ex45 due dep stat by (intro conjI) assumption+
qed

theorem deposit_amount_of_booking_witness:
  "list_all validateField (filter field_required sample_form) \<and>
   selectedService sample_state = Some sample_service \<and>
   selectedDate sample_state = Some ''2025-11-15'' \<and>
   selectedTime sample_state = Some ''09:00'' \<and>
   (0::rat) \<le> 250 \<and> jsMul 250 DEPOSIT_PERCENT \<le> 250 \<and> DEPOSIT_MIN \<le> 250 \<and>
   depositOf 250 DEPOSIT_PERCENT DEPOSIT_MIN \<le> 250 \<and>
   amountDue (last (loadBookings (storage_after
      (handleBookingSubmit sample_env sample_form sample_state empty_storage)))) = 250 \<and>
   depositAmount (last (loadBookings (storage_after
      (handleBookingSubmit sample_env sample_form sample_state empty_storage)))) = 175 / 2 \<and>
   status (last (loadBookings (storage_after
      (handleBookingSubmit sample_env sample_form sample_state empty_storage)))) = deposit_pending"
proof -
  have svc: "selectedService sample_state = Some sample_service"
    and d: "selectedDate sample_state = Some ''2025-11-15''"
    and t: "selectedTime sample_state = Some ''09:00''"
    by (simp_all add: sample_state_def)
  have dne: "''2025-11-15'' \<noteq> []" and tne: "''09:00'' \<noteq> []" by simp_all
  have p: "(0::rat) \<le> 250" by simp
  have price: "price sample_service = 250" by (simp add: sample_service_def)
  have prod: "jsMul 250 DEPOSIT_PERCENT \<le> 250"
    by (simp add: jsMul_250)
  have mn: "DEPOSIT_MIN \<le> 250"
    by (simp add: DEPOSIT_MIN_def)
  note inst = deposit_amount_of_booking [OF sample_form_valid svc d dne t tne p,
            where pct = DEPOSIT_PERCENT and m = DEPOSIT_MIN and e = sample_env
              and st = empty_storage]
  note bound = inst [THEN conjunct2, THEN conjunct1, THEN mp, OF conjI, OF prod mn]
  note rest = inst [THEN conjunct2, THEN conjunct2, THEN conjunct2, THEN conjunct2]
  have due: "amountDue (last (loadBookings (storage_after
      (handleBookingSubmit sample_env sample_form sample_state empty_storage)))) = 250"
    using rest [THEN conjunct1] by (simp only: price)
  have dep: "depositAmount (last (loadBookings (storage_after
      (handleBookingSubmit sample_env sample_form sample_state empty_storage)))) = 175 / 2"
    using rest [THEN conjunct2, THEN conjunct1]
    by (simp add: price jsMul_250 DEPOSIT_MIN_def)
  note stat = rest [THEN conjunct2, THEN conjunct2]
  show ?thesis
    using sample_form_valid svc d t p prod mn bound due dep stat
    by (intro conjI) assumption+
qed

section \<open>Availability: blocked dates, cancelled bookings, double booking\<close>

lemma sample_booking_fields:
  "date sample_booking = ''2025-11-15''"
  "time sample_booking = ''09:00''"
  "status sample_booking = deposit_pending"
  "booking_id sample_booking = ''booking-1234567890''"
  by (simp_all add: sample_booking_def sample_booking_data_def booking_data.extend_def
        booking.fields_def booking.defs booking_data.defs)

lemma formatTimeLabel_0900: "formatTimeLabel ''09:00'' = ''9:00 AM''"
  by (simp add: formatTimeLabel_def Number_str_def isDigit_def parseInt_def digitValue_def
        toString.simps padStart2_def)




text \<open>
  Claim C5 fails on the code. The only stored booking is cancelled, and still the
  09:00 slot of its date is generated with \<open>available = False\<close>: the filter of
  \<open>generateTimeSlots\<close> is on the date alone.
\<close>

theorem cancelled_booking_occupies_slot_counterexample:
  "map status (loadBookings cancelled_storage) = [cancelled] \<and>
   fst (getBlackoutDates [] cancelled_storage) = [] \<and>
   slots (generateTimeSlots cancelled_storage ''2025-11-15'') ! 2 =
     \<lparr>slot_time = ''09:00'', available = False, label = ''9:00 AM''\<rparr>"
  by (simp add: generateTimeSlots_slots upt_7_19 slotAt_def hourTime_values
        cancelled_storage_def loadBookings_def sample_booking_fields formatTimeLabel_0900
        getBlackoutDates_def)

text \<open>
  Claim C5, amended. For every date, a generated slot has \<open>available = True\<close> if and
  only if no stored booking, whatever its status, has that date and that time; a
  cancelled booking makes its slot unavailable like any other.
\<close>

theorem slot_available_iff_no_booking:
  assumes "s \<in> set (slots (generateTimeSlots st d))"
  shows "available s = (\<forall>b \<in> set (loadBookings st). \<not> (date b = d \<and> time b = slot_time s))"
  using assms by (rule available_iff_unbooked)

theorem slot_available_iff_no_booking_witness:
  "\<lparr>slot_time = ''09:00'', available = False, label = ''9:00 AM''\<rparr>
     \<in> set (slots (generateTimeSlots cancelled_storage ''2025-11-15'')) \<and>
   map date (loadBookings cancelled_storage) = [''2025-11-15''] \<and>
   map time (loadBookings cancelled_storage) = [''09:00''] \<and>
   map status (loadBookings cancelled_storage) = [cancelled]"
proof -
  have mem: "\<lparr>slot_time = ''09:00'', available = False, label = ''9:00 AM''\<rparr>
               \<in> set (slots (generateTimeSlots cancelled_storage ''2025-11-15''))"
    by (simp add: generateTimeSlots_slots upt_7_19 slotAt_def hourTime_values
          cancelled_storage_def loadBookings_def sample_booking_fields formatTimeLabel_0900)
  have "available \<lparr>slot_time = ''09:00'', available = False, label = ''9:00 AM''\<rparr> =
          (\<forall>b \<in> set (loadBookings cancelled_storage).
              \<not> (date b = ''2025-11-15'' \<and>
                 time b = slot_time \<lparr>slot_time = ''09:00'', available = False, label = ''9:00 AM''\<rparr>))"
    by (rule slot_available_iff_no_booking [OF mem])
  then show ?thesis
    using mem
    by (simp add: cancelled_storage_def loadBookings_def sample_booking_fields)
qed

lemma createBooking_appends:
  "loadBookings (snd (mockApiRequest e (PostBookings body) st))
     = loadBookings st @ [createdBooking e body]"
  by (simp add: mockApiRequest_post)

lemma findIndex_Some:
  "findIndex P xs = Some i \<Longrightarrow> i < length xs \<and> P (xs ! i) \<and> (\<forall>j < i. \<not> P (xs ! j))"
proof (induction xs arbitrary: i)
  case Nil
  then show ?case by simp
next
  case (Cons x xs)
  show ?case
  proof (cases "P x")
    case True
    with Cons.prems show ?thesis by simp
  next
    case False
    with Cons.prems obtain k where k: "findIndex P xs = Some k" "i = Suc k"
      by auto
    from Cons.IH [OF k(1)] False k(2) show ?thesis
      by (auto simp: less_Suc_eq_0_disj)
  qed
qed

lemma findIndex_None: "(findIndex P xs = None) = (\<forall>x \<in> set xs. \<not> P x)"
  by (induction xs) auto

lemma map_update_same:
  assumes "\<And>x. f (g x) = f x"
  shows "map f (xs[i := g (xs ! i)]) = map f xs"
proof (cases "i < length xs")
  case True
  then have "(map f xs)[i := f (xs ! i)] = map f xs"
    by (simp add: list_update_same_conv)
  then show ?thesis by (simp add: map_update assms)
next
  case False
  then have "length xs \<le> i" by arith
  then show ?thesis by (simp only: list_update_beyond)
qed

lemma map_update_status:
  "map date (bs[i := (bs ! i)\<lparr>status := s\<rparr>]) = map date bs"
  "map time (bs[i := (bs ! i)\<lparr>status := s\<rparr>]) = map time bs"
  "map booking_id (bs[i := (bs ! i)\<lparr>status := s\<rparr>]) = map booking_id bs"
proof -
  show "map date (bs[i := (bs ! i)\<lparr>status := s\<rparr>]) = map date bs"
    by (rule map_update_same [where g = "\<lambda>b. b\<lparr>status := s\<rparr>"]) simp
  show "map time (bs[i := (bs ! i)\<lparr>status := s\<rparr>]) = map time bs"
    by (rule map_update_same [where g = "\<lambda>b. b\<lparr>status := s\<rparr>"]) simp
  show "map booking_id (bs[i := (bs ! i)\<lparr>status := s\<rparr>]) = map booking_id bs"
    by (rule map_update_same [where g = "\<lambda>b. b\<lparr>status := s\<rparr>"]) simp
qed

lemma startsWith_append: "startsWith (p @ s) p"
  by (induction p) simp_all

lemma split_slash_nonempty: "split_slash s \<noteq> []"
  by (induction s) (auto split: list.splits)

lemma split_slash_no_slash: "CHR ''/'' \<notin> set s \<Longrightarrow> split_slash s = [s]"
  by (induction s) auto

lemma split_slash_has_slash: "CHR ''/'' \<in> set s \<Longrightarrow> tl (split_slash s) \<noteq> []"
proof (induction s)
  case Nil
  then show ?case by simp
next
  case (Cons c cs)
  show ?case
  proof (cases "c = CHR ''/''")
    case True
    then show ?thesis by (simp add: split_slash_nonempty)
  next
    case False
    with Cons.prems have "CHR ''/'' \<in> set cs" by simp
    from Cons.IH [OF this] obtain p q ps where "split_slash cs = p # q # ps"
      by (cases "split_slash cs"; cases "tl (split_slash cs)") auto
    with False show ?thesis by simp
  qed
qed

lemma last_split_slash: "last (split_slash s) = lastSegment s"
proof (induction s)
  case Nil
  show ?case by (simp add: lastSegment_def)
next
  case (Cons c cs)
  show ?case
  proof (cases "c = CHR ''/''")
    case True
    have "lastSegment (c # cs) = lastSegment cs"
      by (simp add: lastSegment_def True takeWhile_tail)
    with Cons.IH True show ?thesis
      by (simp add: split_slash_nonempty)
  next
    case False
    show ?thesis
    proof (cases "CHR ''/'' \<in> set cs")
      case True
      from split_slash_has_slash [OF True] obtain p q ps where sp: "split_slash cs = p # q # ps"
        by (cases "split_slash cs"; cases "tl (split_slash cs)") auto
      from True have "CHR ''/'' \<in> set (rev cs)" by simp
      then have "takeWhile (\<lambda>c. c \<noteq> CHR ''/'') (rev cs @ [c])
                   = takeWhile (\<lambda>c. c \<noteq> CHR ''/'') (rev cs)"
        by (rule takeWhile_append1) simp
      then have "lastSegment (c # cs) = lastSegment cs"
        by (simp add: lastSegment_def)
      with Cons.IH False sp show ?thesis by simp
    next
      case no: False
      with False have "takeWhile (\<lambda>c. c \<noteq> CHR ''/'') (rev (c # cs)) = rev (c # cs)"
        by (intro takeWhile_eq_all_conv [THEN iffD2]) auto
      then have "lastSegment (c # cs) = c # cs"
        by (simp only: lastSegment_def rev_rev_ident)
      with False no show ?thesis
        by (simp add: split_slash_no_slash)
    qed
  qed
qed

lemma pop_split_slash: "pop (split_slash s) = Some (lastSegment s)"
  by (simp add: pop_def split_slash_nonempty last_split_slash)

lemma lastSegment_endpoint: "lastSegment (''/api/bookings/'' @ bid) = lastSegment bid"
proof -
  have "rev (''/api/bookings/'' @ bid) = rev bid @ CHR ''/'' # rev ''/api/bookings''"
    by simp
  then show ?thesis
    by (simp only: lastSegment_def takeWhile_tail simp_thms)
qed

lemma lastSegment_no_slash:
  assumes "CHR ''/'' \<notin> set s"
  shows "lastSegment s = s"
proof -
  from assms have "takeWhile (\<lambda>c. c \<noteq> CHR ''/'') (rev s) = rev s"
    by (intro takeWhile_eq_all_conv [THEN iffD2]) auto
  then show ?thesis
    by (simp only: lastSegment_def rev_rev_ident)
qed

lemma endpoint_id: "pop (split_slash (''/api/bookings/'' @ bid)) = Some (lastSegment bid)"
  by (simp only: pop_split_slash lastSegment_endpoint)

lemma endpoint_starts: "startsWith (''/api/bookings/'' @ bid) ''/api/bookings/'' = True"
  by (simp only: startsWith_append)

lemma mockApiRequest_patch_found:
  assumes "findIndex (\<lambda>b. booking_id b = lastSegment bid) (loadBookings st) = Some i"
  shows "mockApiRequest_patch (''/api/bookings/'' @ bid) s st =
           (Inr ((loadBookings st ! i)\<lparr>status := s\<rparr>),
            st\<lparr>sb_bookings := Some ((loadBookings st)[i := (loadBookings st ! i)\<lparr>status := s\<rparr>])\<rparr>)"
  using findIndex_Some [OF assms]
  unfolding mockApiRequest_patch_def endpoint_starts endpoint_id
  by (simp add: Let_def assms)

lemma mockApiRequest_patch_missing:
  assumes "findIndex (\<lambda>b. booking_id b = lastSegment bid) (loadBookings st) = None"
  shows "mockApiRequest_patch (''/api/bookings/'' @ bid) s st = (Inl ''Booking not found'', st)"
  unfolding mockApiRequest_patch_def endpoint_starts endpoint_id
  by (simp add: Let_def assms)

lemma patch_keeps_dates_times:
  "map date (loadBookings (snd (mockApiRequest_patch bid s st))) = map date (loadBookings st) \<and>
   map time (loadBookings (snd (mockApiRequest_patch bid s st))) = map time (loadBookings st)"
proof (cases "startsWith bid ''/api/bookings/''")
  case False
  then show ?thesis by (simp add: mockApiRequest_patch_def)
next
  case True
  show ?thesis
  proof (cases "findIndex (\<lambda>b. Some (booking_id b) = pop (split_slash bid)) (loadBookings st)")
    case None
    with True show ?thesis by (simp add: mockApiRequest_patch_def Let_def)
  next
    case (Some i)
    with True show ?thesis
      by (simp add: mockApiRequest_patch_def Let_def map_update_status)
  qed
qed

text \<open>
  Claim C2 fails on the code. With the sample booking stored for 2025-11-15 at
  09:00 (status \<open>deposit_pending\<close>), \<^verbatim>\<open>POST /api/bookings\<close> with the same date and time
  is accepted: the gateway pushes without reading what is stored, and two
  \<open>deposit_pending\<close> bookings share the pair.
\<close>

theorem createBooking_double_booking_counterexample:
  "map status (loadBookings booked_storage) = [deposit_pending] \<and>
   map date (loadBookings (snd (mockApiRequest sample_env (PostBookings sample_booking_data)
        booked_storage))) = [''2025-11-15'', ''2025-11-15''] \<and>
   map time (loadBookings (snd (mockApiRequest sample_env (PostBookings sample_booking_data)
        booked_storage))) = [''09:00'', ''09:00''] \<and>
   map status (loadBookings (snd (mockApiRequest sample_env (PostBookings sample_booking_data)
        booked_storage))) = [deposit_pending, deposit_pending]"
  unfolding createBooking_appends
  by (simp add: createdBooking_fields booked_storage_def
        loadBookings_def sample_booking_fields sample_booking_data_def)

text \<open>
  Claim C2, amended. For every stored booking, whatever its status, the slot of its
  time is never \<open>available = True\<close> in a result of \<open>generateTimeSlots\<close> for its date.
  \<^verbatim>\<open>POST /api/bookings\<close> appends the new booking, with status \<open>deposit_pending\<close> and
  the date and time of the request, without looking at the stored bookings; the
  stored bookings have pairwise different (date, time) pairs after it when they
  had before and the requested time was a slot that \<open>generateTimeSlots\<close> gave as
  available for that date on the same storage. The admin's status update changes
  no date and no time.
\<close>

theorem booked_slot_unavailable:
  "(\<forall>b \<in> set (loadBookings st). \<forall>s \<in> set (slots (generateTimeSlots st (date b))).
       slot_time s = time b \<longrightarrow> \<not> available s) \<and>
   (\<exists>b. loadBookings (snd (mockApiRequest e (PostBookings body) st)) = loadBookings st @ [b] \<and>
        date b = date body \<and> time b = time body \<and> status b = deposit_pending) \<and>
   (distinct (map (\<lambda>b. (date b, time b)) (loadBookings st)) \<and>
    s' \<in> set (slots (generateTimeSlots st (date body))) \<and>
    slot_time s' = time body \<and> available s' \<longrightarrow>
      distinct (map (\<lambda>b. (date b, time b))
                 (loadBookings (snd (mockApiRequest e (PostBookings body) st))))) \<and>
   map date (loadBookings (snd (mockApiRequest_patch bid ns st))) = map date (loadBookings st) \<and>
   map time (loadBookings (snd (mockApiRequest_patch bid ns st))) = map time (loadBookings st)"
proof -
  have a: "\<forall>b \<in> set (loadBookings st). \<forall>s \<in> set (slots (generateTimeSlots st (date b))).
             slot_time s = time b \<longrightarrow> \<not> available s"
  proof (intro ballI impI)
    fix b s
    assume b: "b \<in> set (loadBookings st)"
      and s: "s \<in> set (slots (generateTimeSlots st (date b)))"
      and tm: "slot_time s = time b"
    from available_iff_unbooked [OF s] b tm show "\<not> available s"
      by auto
  qed
  have b: "\<exists>b. loadBookings (snd (mockApiRequest e (PostBookings body) st)) = loadBookings st @ [b] \<and>
             date b = date body \<and> time b = time body \<and> status b = deposit_pending"
    by (simp add: createBooking_appends createdBooking_fields)
  have c: "distinct (map (\<lambda>b. (date b, time b)) (loadBookings st)) \<and>
           s' \<in> set (slots (generateTimeSlots st (date body))) \<and>
           slot_time s' = time body \<and> available s' \<longrightarrow>
             distinct (map (\<lambda>b. (date b, time b))
                        (loadBookings (snd (mockApiRequest e (PostBookings body) st))))"
  proof (intro impI, elim conjE)
    assume dist: "distinct (map (\<lambda>b. (date b, time b)) (loadBookings st))"
      and mem: "s' \<in> set (slots (generateTimeSlots st (date body)))"
      and tm: "slot_time s' = time body" and av: "available s'"
    from available_iff_unbooked [OF mem] av tm
    have free: "\<forall>b \<in> set (loadBookings st). \<not> (date b = date body \<and> time b = time body)"
      by simp
    then have "(date body, time body) \<notin> set (map (\<lambda>b. (date b, time b)) (loadBookings st))"
      by auto
    with dist show "distinct (map (\<lambda>b. (date b, time b))
                        (loadBookings (snd (mockApiRequest e (PostBookings body) st))))"
      by (simp add: createBooking_appends createdBooking_fields)
  qed
  have p1: "map date (loadBookings (snd (mockApiRequest_patch bid ns st))) = map date (loadBookings st)"
    and p2: "map time (loadBookings (snd (mockApiRequest_patch bid ns st))) = map time (loadBookings st)"
    using patch_keeps_dates_times [of bid ns st] by (rule conjunct1, rule conjunct2)
  show ?thesis
    using a b c p1 p2 by (intro conjI) assumption+
qed

theorem booked_slot_unavailable_witness:
  "sample_booking \<in> set (loadBookings booked_storage) \<and>
   \<lparr>slot_time = ''09:00'', available = False, label = ''9:00 AM''\<rparr>
      \<in> set (slots (generateTimeSlots booked_storage (date sample_booking))) \<and>
   slot_time \<lparr>slot_time = ''09:00'', available = False, label = ''9:00 AM''\<rparr>
      = time sample_booking \<and>
   distinct (map (\<lambda>b. (date b, time b)) (loadBookings empty_storage)) \<and>
   \<lparr>slot_time = ''09:00'', available = True, label = ''9:00 AM''\<rparr>
      \<in> set (slots (generateTimeSlots empty_storage (date sample_booking_data))) \<and>
   distinct (map (\<lambda>b. (date b, time b))
      (loadBookings (snd (mockApiRequest sample_env (PostBookings sample_booking_data)
          empty_storage))))"
proof -
  have m1: "sample_booking \<in> set (loadBookings booked_storage)"
    by (simp add: booked_storage_def loadBookings_def)
  have m2: "\<lparr>slot_time = ''09:00'', available = False, label = ''9:00 AM''\<rparr>
      \<in> set (slots (generateTimeSlots booked_storage (date sample_booking)))"
    by (simp add: generateTimeSlots_slots upt_7_19 slotAt_def hourTime_values
          booked_storage_def loadBookings_def sample_booking_fields formatTimeLabel_0900)
  have d0: "distinct (map (\<lambda>b. (date b, time b)) (loadBookings empty_storage))"
    by (simp add: empty_storage_def loadBookings_def)
  have m3: "\<lparr>slot_time = ''09:00'', available = True, label = ''9:00 AM''\<rparr>
      \<in> set (slots (generateTimeSlots empty_storage (date sample_booking_data)))"
    by (simp add: generateTimeSlots_slots upt_7_19 slotAt_def hourTime_values
          empty_storage_def loadBookings_def sample_booking_data_def formatTimeLabel_0900)
  have tm: "slot_time \<lparr>slot_time = ''09:00'', available = True, label = ''9:00 AM''\<rparr>
              = time sample_booking_data"
    by (simp add: sample_booking_data_def)
  from booked_slot_unavailable
         [where st = empty_storage and body = sample_booking_data and e = sample_env
            and s' = "\<lparr>slot_time = ''09:00'', available = True, label = ''9:00 AM''\<rparr>"]
       d0 m3 tm
  have "distinct (map (\<lambda>b. (date b, time b))
      (loadBookings (snd (mockApiRequest sample_env (PostBookings sample_booking_data)
          empty_storage))))"
    by simp
  with m1 m2 d0 m3 show ?thesis
    by (simp add: sample_booking_fields)
qed

section \<open>Status updates\<close>

lemma updateBookingStatus_found:
  assumes "findIndex (\<lambda>b. booking_id b = lastSegment bid) (loadBookings st) = Some i"
  shows "update_storage_after (updateBookingStatus bid s sb st) =
           st\<lparr>sb_bookings := Some ((loadBookings st)[i := (loadBookings st ! i)\<lparr>status := s\<rparr>])\<rparr>"
    and "update_toast (updateBookingStatus bid s sb st) = ''Booking status updated''"
  unfolding updateBookingStatus_def mockApiRequest_patch_found [OF assms]
  by simp_all

lemma updateBookingStatus_missing:
  assumes "findIndex (\<lambda>b. booking_id b = lastSegment bid) (loadBookings st) = None"
  shows "updateBookingStatus bid s sb st =
           \<lparr>state_bookings_after = sb, update_storage_after = st,
            update_toast = ''Failed to update booking status''\<rparr>"
  unfolding updateBookingStatus_def mockApiRequest_patch_missing [OF assms]
  by simp

lemma sample_id_segment:
  "lastSegment ''booking-1234567890'' = ''booking-1234567890''"
  "lastSegment ''x/booking-1234567890'' = ''booking-1234567890''"
  "lastSegment ''booking-0'' = ''booking-0''"
  by (simp_all add: lastSegment_def)

text \<open>
  Claim C3 fails on the code. The stored sample booking is \<open>deposit_pending\<close>; asking
  for \<open>completed\<close> directly succeeds and is stored. A stored \<open>cancelled\<close> booking is
  likewise moved to \<open>deposit_paid\<close>. The \<^verbatim>\<open>PATCH\<close> branch merges the update into the
  stored booking without reading its status.
\<close>

theorem pending_to_completed_counterexample:
  "map status (loadBookings booked_storage) = [deposit_pending] \<and>
   map status (loadBookings (update_storage_after
      (updateBookingStatus ''booking-1234567890'' completed [sample_booking] booked_storage)))
     = [completed] \<and>
   update_toast (updateBookingStatus ''booking-1234567890'' completed [sample_booking]
      booked_storage) = ''Booking status updated'' \<and>
   map status (loadBookings cancelled_storage) = [cancelled] \<and>
   map status (loadBookings (update_storage_after
      (updateBookingStatus ''booking-1234567890'' deposit_paid
         [sample_booking\<lparr>status := cancelled\<rparr>] cancelled_storage)))
     = [deposit_paid]"
proof -
  have i1: "findIndex (\<lambda>b. booking_id b = lastSegment ''booking-1234567890'')
              (loadBookings booked_storage) = Some 0"
    by (simp add: booked_storage_def loadBookings_def sample_booking_fields sample_id_segment)
  have i2: "findIndex (\<lambda>b. booking_id b = lastSegment ''booking-1234567890'')
              (loadBookings cancelled_storage) = Some 0"
    by (simp add: cancelled_storage_def loadBookings_def sample_booking_fields sample_id_segment)
  have l1: "loadBookings booked_storage = [sample_booking]"
    by (simp add: booked_storage_def loadBookings_def)
  have l2: "loadBookings cancelled_storage = [sample_booking\<lparr>status := cancelled\<rparr>]"
    by (simp add: cancelled_storage_def loadBookings_def)
  show ?thesis
    by (simp add: updateBookingStatus_found [OF i1] updateBookingStatus_found [OF i2] l1 l2
          sample_booking_fields)
qed

text \<open>
  Claim C3, amended. The gateway looks the booking up by the last segment of the
  requested endpoint, that is by the text after the last \<open>/\<close> of the given id, which
  is the id itself when it contains no \<open>/\<close> (as every id the scripts generate).
  For every stored booking with that id and every requested status, whatever the
  booking's current status, the update succeeds: the first stored booking with
  that id gets the requested status, every other stored booking is left as it
  was, and the success toast is shown. There is no transition table and no
  \<open>InvalidTransition\<close> error. The update fails only when no stored booking has that
  id, with the error \<open>Booking not found\<close>; then storage and the page's bookings are
  unchanged. The buttons of the booking drawer request \<open>deposit_paid\<close> from
  \<open>deposit_pending\<close>, \<open>completed\<close> from \<open>deposit_paid\<close>, and \<open>cancelled\<close> or \<open>no_show\<close>
  from every status other than \<open>cancelled\<close> and \<open>no_show\<close>.
\<close>

theorem updateBookingStatus_any_status:
  "(b \<in> set (loadBookings st) \<and> booking_id b = lastSegment bid \<longrightarrow>
      (\<exists>i < length (loadBookings st).
          booking_id (loadBookings st ! i) = lastSegment bid \<and>
          (\<forall>j < i. booking_id (loadBookings st ! j) \<noteq> lastSegment bid) \<and>
          loadBookings (update_storage_after (updateBookingStatus bid s sb st))
            = (loadBookings st)[i := (loadBookings st ! i)\<lparr>status := s\<rparr>] \<and>
          fst (mockApiRequest_patch (''/api/bookings/'' @ bid) s st)
            = Inr ((loadBookings st ! i)\<lparr>status := s\<rparr>)) \<and>
      update_toast (updateBookingStatus bid s sb st) = ''Booking status updated'') \<and>
   ((\<forall>b' \<in> set (loadBookings st). booking_id b' \<noteq> lastSegment bid) \<longrightarrow>
      fst (mockApiRequest_patch (''/api/bookings/'' @ bid) s st) = Inl ''Booking not found'' \<and>
      update_storage_after (updateBookingStatus bid s sb st) = st \<and>
      state_bookings_after (updateBookingStatus bid s sb st) = sb \<and>
      update_toast (updateBookingStatus bid s sb st) = ''Failed to update booking status'') \<and>
   pop (split_slash (''/api/bookings/'' @ bid)) = Some (lastSegment bid) \<and>
   (CHR ''/'' \<notin> set bid \<longrightarrow> lastSegment bid = bid) \<and>
   drawerActions deposit_pending = [deposit_paid, cancelled, no_show] \<and>
   drawerActions deposit_paid = [completed, cancelled, no_show] \<and>
   drawerActions completed = [cancelled, no_show] \<and>
   drawerActions cancelled = [] \<and>
   drawerActions no_show = []"
proof -
  have found: "b \<in> set (loadBookings st) \<and> booking_id b = lastSegment bid \<longrightarrow>
      (\<exists>i < length (loadBookings st).
          booking_id (loadBookings st ! i) = lastSegment bid \<and>
          (\<forall>j < i. booking_id (loadBookings st ! j) \<noteq> lastSegment bid) \<and>
          loadBookings (update_storage_after (updateBookingStatus bid s sb st))
            = (loadBookings st)[i := (loadBookings st ! i)\<lparr>status := s\<rparr>] \<and>
          fst (mockApiRequest_patch (''/api/bookings/'' @ bid) s st)
            = Inr ((loadBookings st ! i)\<lparr>status := s\<rparr>)) \<and>
      update_toast (updateBookingStatus bid s sb st) = ''Booking status updated''"
  proof (intro impI, elim conjE)
    assume mem: "b \<in> set (loadBookings st)" and idb: "booking_id b = lastSegment bid"
    from mem idb
    have "findIndex (\<lambda>b. booking_id b = lastSegment bid) (loadBookings st) \<noteq> None"
      by (auto simp: findIndex_None)
    then obtain i
      where i: "findIndex (\<lambda>b. booking_id b = lastSegment bid) (loadBookings st) = Some i"
      by auto
    from findIndex_Some [OF i]
    have props: "i < length (loadBookings st)"
      "booking_id (loadBookings st ! i) = lastSegment bid"
      "\<forall>j < i. booking_id (loadBookings st ! j) \<noteq> lastSegment bid"
      by auto
    have upd: "loadBookings (update_storage_after (updateBookingStatus bid s sb st))
            = (loadBookings st)[i := (loadBookings st ! i)\<lparr>status := s\<rparr>]"
      by (simp add: updateBookingStatus_found(1) [OF i])
    have resp: "fst (mockApiRequest_patch (''/api/bookings/'' @ bid) s st)
            = Inr ((loadBookings st ! i)\<lparr>status := s\<rparr>)"
      by (simp only: mockApiRequest_patch_found [OF i] fst_conv)
    from props upd resp updateBookingStatus_found(2) [OF i, of s sb]
    show "(\<exists>i < length (loadBookings st).
          booking_id (loadBookings st ! i) = lastSegment bid \<and>
          (\<forall>j < i. booking_id (loadBookings st ! j) \<noteq> lastSegment bid) \<and>
          loadBookings (update_storage_after (updateBookingStatus bid s sb st))
            = (loadBookings st)[i := (loadBookings st ! i)\<lparr>status := s\<rparr>] \<and>
          fst (mockApiRequest_patch (''/api/bookings/'' @ bid) s st)
            = Inr ((loadBookings st ! i)\<lparr>status := s\<rparr>)) \<and>
      update_toast (updateBookingStatus bid s sb st) = ''Booking status updated''"
      by blast
  qed
  have missing: "(\<forall>b' \<in> set (loadBookings st). booking_id b' \<noteq> lastSegment bid) \<longrightarrow>
      fst (mockApiRequest_patch (''/api/bookings/'' @ bid) s st) = Inl ''Booking not found'' \<and>
      update_storage_after (updateBookingStatus bid s sb st) = st \<and>
      state_bookings_after (updateBookingStatus bid s sb st) = sb \<and>
      update_toast (updateBookingStatus bid s sb st) = ''Failed to update booking status''"
  proof (intro impI)
    assume none: "\<forall>b' \<in> set (loadBookings st). booking_id b' \<noteq> lastSegment bid"
    from none
    have n: "findIndex (\<lambda>b. booking_id b = lastSegment bid) (loadBookings st) = None"
      by (simp add: findIndex_None)
    have r: "fst (mockApiRequest_patch (''/api/bookings/'' @ bid) s st) = Inl ''Booking not found''"
      by (simp only: mockApiRequest_patch_missing [OF n] fst_conv)
    show "fst (mockApiRequest_patch (''/api/bookings/'' @ bid) s st) = Inl ''Booking not found'' \<and>
      update_storage_after (updateBookingStatus bid s sb st) = st \<and>
      state_bookings_after (updateBookingStatus bid s sb st) = sb \<and>
      update_toast (updateBookingStatus bid s sb st) = ''Failed to update booking status''"
      using r by (simp add: updateBookingStatus_missing [OF n])
  qed
  have seg: "pop (split_slash (''/api/bookings/'' @ bid)) = Some (lastSegment bid)"
    by (rule endpoint_id)
  have noslash: "CHR ''/'' \<notin> set bid \<longrightarrow> lastSegment bid = bid"
    using lastSegment_no_slash [of bid] by blast
  have actions:
    "drawerActions deposit_pending = [deposit_paid, cancelled, no_show]"
    "drawerActions deposit_paid = [completed, cancelled, no_show]"
    "drawerActions completed = [cancelled, no_show]"
    "drawerActions cancelled = []"
    "drawerActions no_show = []"
    by (simp_all add: drawerActions_def)
  show ?thesis
    using found missing seg noslash actions by (intro conjI) assumption+
qed

theorem updateBookingStatus_any_status_witness:
  "sample_booking \<in> set (loadBookings booked_storage) \<and>
   booking_id sample_booking = lastSegment ''x/booking-1234567890'' \<and>
   update_toast (updateBookingStatus ''x/booking-1234567890'' cancelled [] booked_storage)
     = ''Booking status updated'' \<and>
   CHR ''/'' \<notin> set ''booking-0'' \<and>
   lastSegment ''booking-0'' = ''booking-0'' \<and>
   booking_id sample_booking \<noteq> lastSegment ''booking-0'' \<and>
   update_storage_after (updateBookingStatus ''booking-0'' cancelled [] booked_storage)
     = booked_storage \<and>
   update_toast (updateBookingStatus ''booking-0'' cancelled [] booked_storage)
     = ''Failed to update booking status''"
proof -
  have l: "loadBookings booked_storage = [sample_booking]"
    by (simp add: booked_storage_def loadBookings_def)
  have mem: "sample_booking \<in> set (loadBookings booked_storage)"
    by (simp add: l)
  have idb: "booking_id sample_booking = lastSegment ''x/booking-1234567890''"
    by (simp add: sample_booking_fields sample_id_segment)
  have ns: "CHR ''/'' \<notin> set ''booking-0''" by simp
  have other: "booking_id sample_booking \<noteq> lastSegment ''booking-0''"
    by (simp add: sample_booking_fields sample_id_segment)
  have none: "\<forall>b' \<in> set (loadBookings booked_storage). booking_id b' \<noteq> lastSegment ''booking-0''"
    using other by (simp add: l)
  note inst1 = updateBookingStatus_any_status
      [where b = sample_booking and st = booked_storage and bid = "''x/booking-1234567890''"
         and s = cancelled and sb = "[]"]
  note inst2 = updateBookingStatus_any_status
      [where b = sample_booking and st = booked_storage and bid = "''booking-0''"
         and s = cancelled and sb = "[]"]
  note t1 = inst1 [THEN conjunct1, THEN mp, OF conjI, OF mem idb, THEN conjunct2]
  note m2 = inst2 [THEN conjunct2, THEN conjunct1, THEN mp, OF none]
  note t2 = m2 [THEN conjunct2, THEN conjunct1]
  note t3 = m2 [THEN conjunct2, THEN conjunct2, THEN conjunct2]
  note sg = inst2 [THEN conjunct2, THEN conjunct2, THEN conjunct2, THEN conjunct1, THEN mp, OF ns]
  show ?thesis
    using mem idb t1 ns sg other t2 t3 by (intro conjI) assumption+
qed

section \<open>Lemmas about strings and the restriction pattern\<close>

lemma startsWith_iff: "startsWith s p = (\<exists>v. s = p @ v)"
  by (induction s p rule: startsWith.induct) auto

lemma includes_str_iff: "includes_str s p = (\<exists>u v. s = u @ p @ v)"
proof (induction s)
  case Nil
  show ?case by (cases p) auto
next
  case (Cons c cs)
  have split: "(\<exists>u v. c # cs = u @ p @ v) = ((\<exists>v. c # cs = p @ v) \<or> (\<exists>u v. cs = u @ p @ v))"
  proof
    assume "\<exists>u v. c # cs = u @ p @ v"
    then obtain u v where uv: "c # cs = u @ p @ v" by blast
    show "(\<exists>v. c # cs = p @ v) \<or> (\<exists>u v. cs = u @ p @ v)"
    proof (cases u)
      case Nil
      with uv show ?thesis by auto
    next
      case (Cons x u')
      with uv have "cs = u' @ p @ v" by simp
      then show ?thesis by blast
    qed
  next
    assume "(\<exists>v. c # cs = p @ v) \<or> (\<exists>u v. cs = u @ p @ v)"
    then show "\<exists>u v. c # cs = u @ p @ v"
    proof
      assume "\<exists>v. c # cs = p @ v"
      then obtain v where "c # cs = [] @ p @ v" by auto
      then show ?thesis by blast
    next
      assume "\<exists>u v. cs = u @ p @ v"
      then obtain u v where "c # cs = (c # u) @ p @ v" by auto
      then show ?thesis by blast
    qed
  qed
  have "includes_str (c # cs) p = (startsWith (c # cs) p \<or> includes_str cs p)"
    by (simp only: includes_str.simps)
  also have "\<dots> = ((\<exists>v. c # cs = p @ v) \<or> (\<exists>u v. cs = u @ p @ v))"
    by (simp only: startsWith_iff Cons.IH)
  also have "\<dots> = (\<exists>u v. c # cs = u @ p @ v)"
    by (rule split [symmetric])
  finally show ?case .
qed

lemma toUpperChar_digit:
  assumes "isDigit c"
  shows "toUpperChar c = c"
proof -
  from assms have "c = CHR ''0'' \<or> c = CHR ''1'' \<or> c = CHR ''2'' \<or> c = CHR ''3'' \<or> c = CHR ''4'' \<or>
      c = CHR ''5'' \<or> c = CHR ''6'' \<or> c = CHR ''7'' \<or> c = CHR ''8'' \<or> c = CHR ''9''"
    by (simp add: isDigit_def)
  then show ?thesis
    by (elim disjE) (simp_all add: toUpperChar_def)
qed

lemma isPeriod_shape:
  assumes "isPeriod p"
  obtains a m where "p = [a, m]" "toUpperChar a = CHR ''A'' \<or> toUpperChar a = CHR ''P''"
    "toUpperChar m = CHR ''M''" "\<not> isDigit a"
proof -
  from assms have "length (toUpperCase p) = 2"
    by (auto simp: isPeriod_def)
  then have len: "length p = 2"
    by (simp add: toUpperCase_def)
  then obtain a m where p: "p = [a, m]"
    by (cases p; cases "tl p") auto
  with assms have up: "toUpperChar a = CHR ''A'' \<or> toUpperChar a = CHR ''P''"
    "toUpperChar m = CHR ''M''"
    by (auto simp: isPeriod_def toUpperCase_def)
  have "\<not> isDigit a"
  proof
    assume d: "isDigit a"
    from up(1) have "a = CHR ''A'' \<or> a = CHR ''P''"
      by (simp only: toUpperChar_digit [OF d])
    with d show False
      by (auto simp: isDigit_def)
  qed
  with p up show thesis by (rule that)
qed

lemma matchPeriod_Some:
  "matchPeriod s = Some p \<Longrightarrow> isPeriod p \<and> (\<exists>z. s = p @ z)"
  by (cases s rule: matchPeriod.cases)
     (auto simp: isPeriod_def toUpperCase_def split: if_splits)

lemma matchPeriod_period: "isPeriod p \<Longrightarrow> matchPeriod (p @ z) = Some p"
  by (erule isPeriod_shape) auto

lemma takeWhile_digits:
  assumes "list_all isDigit ds" "isPeriod p"
  shows "takeWhile isDigit (ds @ p @ z) = ds" "dropWhile isDigit (ds @ p @ z) = p @ z"
proof -
  from assms(2) obtain a m where p: "p = [a, m]" and nd: "\<not> isDigit a"
    by (rule isPeriod_shape)
  from assms(1) have all: "\<forall>x \<in> set ds. isDigit x" by (simp add: list_all_iff)
  show "takeWhile isDigit (ds @ p @ z) = ds"
    using all nd by (simp add: p takeWhile_append2)
  show "dropWhile isDigit (ds @ p @ z) = p @ z"
    using all nd by (simp add: p dropWhile_append2)
qed

lemma regexMatch_sound:
  "regexMatch r = Some (ds, p) \<Longrightarrow>
     \<exists>a z. r = a @ ds @ p @ z \<and> ds \<noteq> [] \<and> list_all isDigit ds \<and> isPeriod p"
proof (induction r)
  case Nil
  then show ?case by simp
next
  case (Cons c cs)
  show ?case
  proof (cases "isDigit c \<and> matchPeriod (dropWhile isDigit cs) \<noteq> None")
    case True
    then obtain q where q: "matchPeriod (dropWhile isDigit cs) = Some q" by auto
    with True Cons.prems have ds: "ds = c # takeWhile isDigit cs" and pq: "p = q"
      by auto
    from matchPeriod_Some [OF q] obtain z where per: "isPeriod q"
      and z: "dropWhile isDigit cs = q @ z" by blast
    have "c # cs = [] @ ds @ p @ z"
      using z takeWhile_dropWhile_id [of isDigit cs] by (simp add: ds pq)
    moreover have "list_all isDigit ds"
      using True by (simp add: ds list_all_iff) (meson set_takeWhileD)
    ultimately show ?thesis using per pq ds by blast
  next
    case False
    with Cons.prems have "regexMatch cs = Some (ds, p)"
      by (auto split: if_splits option.splits)
    from Cons.IH [OF this] obtain a z where
      "cs = a @ ds @ p @ z" "ds \<noteq> []" "list_all isDigit ds" "isPeriod p" by blast
    then have "c # cs = (c # a) @ ds @ p @ z \<and> ds \<noteq> [] \<and> list_all isDigit ds \<and> isPeriod p"
      by simp
    then show ?thesis by blast
  qed
qed

lemma regexMatch_at_start:
  assumes "ds \<noteq> []" "list_all isDigit ds" "isPeriod p"
  shows "regexMatch (ds @ p @ z) = Some (ds, p)"
proof -
  from assms(1) obtain c ds' where ds: "ds = c # ds'" by (cases ds) auto
  with assms(2) have c: "isDigit c" and rest: "list_all isDigit ds'" by auto
  show ?thesis
    using c by (simp add: ds takeWhile_digits [OF rest assms(3)] matchPeriod_period [OF assms(3)])
qed

lemma regexMatch_digit_free_prefix:
  assumes "list_all (\<lambda>c. \<not> isDigit c) a" "ds \<noteq> []" "list_all isDigit ds" "isPeriod p"
  shows "regexMatch (a @ ds @ p @ z) = Some (ds, p)"
  using assms(1)
proof (induction a)
  case Nil
  show ?case using regexMatch_at_start [OF assms(2-4)] by simp
next
  case (Cons x a)
  then show ?case by simp
qed

lemma regexMatch_complete:
  assumes "ds \<noteq> []" "list_all isDigit ds" "isPeriod p"
  shows "regexMatch (a @ ds @ p @ z) \<noteq> None"
proof (induction a)
  case Nil
  show ?case using regexMatch_at_start [OF assms] by simp
next
  case (Cons x a)
  then show ?case by (auto split: option.splits)
qed

lemma regexMatch_None_iff:
  "(regexMatch r = None) =
     (\<not> (\<exists>a ds p z. r = a @ ds @ p @ z \<and> ds \<noteq> [] \<and> list_all isDigit ds \<and> isPeriod p))"
proof
  assume n: "regexMatch r = None"
  show "\<not> (\<exists>a ds p z. r = a @ ds @ p @ z \<and> ds \<noteq> [] \<and> list_all isDigit ds \<and> isPeriod p)"
  proof
    assume "\<exists>a ds p z. r = a @ ds @ p @ z \<and> ds \<noteq> [] \<and> list_all isDigit ds \<and> isPeriod p"
    then obtain a ds p z where "r = a @ ds @ p @ z" "ds \<noteq> []" "list_all isDigit ds" "isPeriod p"
      by blast
    with regexMatch_complete [of ds p a z] n show False by simp
  qed
next
  assume no: "\<not> (\<exists>a ds p z. r = a @ ds @ p @ z \<and> ds \<noteq> [] \<and> list_all isDigit ds \<and> isPeriod p)"
  show "regexMatch r = None"
  proof (rule ccontr)
    assume "regexMatch r \<noteq> None"
    then obtain ds p where "regexMatch r = Some (ds, p)" by auto
    from regexMatch_sound [OF this] no show False by blast
  qed
qed

lemma to24h_spec:
  assumes "isPeriod p"
  shows "to24h h (toUpperCase p) = spec_hour24 h (toUpperCase p = ''PM'')"
  using assms by (auto simp: to24h_def spec_hour24_def isPeriod_def Let_def)

lemma find_first:
  "(\<forall>n \<in> set pre. \<not> P n) \<Longrightarrow> P r \<Longrightarrow> find P (pre @ r # post) = Some r"
  by (induction pre) auto

lemma isRestrictionNote_nonstring:
  "\<not> isRestrictionNote JUndefined" "\<not> isRestrictionNote JNull" "\<not> isRestrictionNote (JBool b)"
  "\<not> isRestrictionNote (JNum x)" "\<not> isRestrictionNote (JArr xs)"
  by (simp_all add: isRestrictionNote_def)

lemma parse_first_mention:
  assumes "\<forall>n \<in> set pre. \<not> isRestrictionNote n" "isRestrictionNote (JStr r)"
  shows "parseTimeRestriction (JArr (pre @ JStr r # post)) =
           (case regexMatch r of
              None \<Rightarrow> None
            | Some (ds, p) \<Rightarrow> Some (to24h (parseInt ds) (toUpperCase p)))"
  by (simp add: parseTimeRestriction_def find_first [OF assms])

lemma parse_no_mention:
  assumes "\<forall>n \<in> set ns. \<not> isRestrictionNote n"
  shows "parseTimeRestriction (JArr ns) = None"
proof -
  from assms have "find isRestrictionNote ns = None"
    by (simp add: find_None_iff)
  then show ?thesis by (simp add: parseTimeRestriction_def)
qed

lemma parseInt_snoc: "parseInt (ds @ [c]) = 10 * parseInt ds + digitValue c"
  by (simp add: parseInt_def)

lemma digitValue_nth: "k < 10 \<Longrightarrow> digitValue (''0123456789'' ! k) = k"
proof -
  assume "k < 10"
  then have "k = 0 \<or> k = 1 \<or> k = 2 \<or> k = 3 \<or> k = 4 \<or> k = 5 \<or> k = 6 \<or> k = 7 \<or> k = 8 \<or> k = 9"
    by arith
  then show ?thesis
    by (elim disjE) (simp_all add: digitValue_def)
qed

lemma parseInt_toString: "parseInt (toString n) = n"
proof (induction n rule: toString.induct)
  case (1 n)
  show ?case
  proof (cases "n < 10")
    case True
    then have "toString n = [''0123456789'' ! n]"
      by (subst toString.simps) simp
    then show ?thesis
      using digitValue_nth [OF True] by (simp add: parseInt_def)
  next
    case False
    then have ts: "toString n = toString (n div 10) @ [''0123456789'' ! (n mod 10)]"
      by (subst toString.simps) simp
    have "parseInt (toString n) = 10 * parseInt (toString (n div 10)) + digitValue (''0123456789'' ! (n mod 10))"
      by (simp only: ts parseInt_snoc)
    also have "\<dots> = 10 * (n div 10) + n mod 10"
      using "1.IH" [OF False] digitValue_nth [of "n mod 10"] by simp
    finally show ?thesis by simp
  qed
qed



lemma violates_no_restriction:
  assumes "parseTimeRestriction (svc_notes svc) = None"
  shows "violatesTimeRestriction svc t = Inr False"
  by (simp add: violatesTimeRestriction_def assms)

lemma restriction_examples:
  "isRestrictionNote (JStr ''DO NOT BOOK AFTER 8AM'')"
  "\<not> isRestrictionNote (JStr ''SELECT'')"
  "regexMatch ''DO NOT BOOK AFTER 8AM'' = Some (''8'', ''AM'')"
  "regexMatch ''DO NOT BOOK AFTER noon'' = None"
  "isRestrictionNote (JStr ''DO NOT BOOK AFTER noon'')"
  "parseTimeRestriction (JArr [JStr ''DO NOT BOOK AFTER 8AM'']) = Some 8"
  "parseTimeRestriction (JArr [JStr ''DO NOT BOOK AFTER 12PM'']) = Some 12"
  "parseTimeRestriction (JArr [JStr ''DO NOT BOOK AFTER 12AM'']) = Some 0"
  by (simp_all add: isRestrictionNote_def toUpperCase_def toUpperChar_def isDigit_def
        parseTimeRestriction_def to24h_def parseInt_def digitValue_def)

section \<open>The restriction parser\<close>

lemma restriction_examples_more:
  "parseTimeRestriction (JArr [JStr ''Arrive 10AM. DO NOT BOOK AFTER 3PM'']) = Some 10"
  "parseTimeRestriction
     (JArr [JStr ''DO NOT BOOK AFTER noon'', JStr ''DO NOT BOOK AFTER 8AM'']) = None"
  by (simp_all add: isRestrictionNote_def toUpperCase_def toUpperChar_def isDigit_def
        parseTimeRestriction_def to24h_def parseInt_def digitValue_def)

text \<open>
  Claim C6 fails on the code. The first note contains the phrase but no
  \<^verbatim>\<open><digits><AM|PM>\<close>; the second contains the phrase with \<open>8AM\<close>. The claim has the
  first note that contains the phrase with a pattern honoured, which is the
  second note and gives 8. The code takes the first note that contains the phrase,
  finds no pattern in it and returns \<^verbatim>\<open>null\<close>.
\<close>

theorem first_phrase_note_without_pattern_counterexample:
  "isRestrictionNote (JStr ''DO NOT BOOK AFTER noon'') \<and>
   regexMatch ''DO NOT BOOK AFTER noon'' = None \<and>
   isRestrictionNote (JStr ''DO NOT BOOK AFTER 8AM'') \<and>
   regexMatch ''DO NOT BOOK AFTER 8AM'' = Some (''8'', ''AM'') \<and>
   parseTimeRestriction (JArr [JStr ''DO NOT BOOK AFTER 8AM'']) = Some 8 \<and>
   parseTimeRestriction
     (JArr [JStr ''DO NOT BOOK AFTER noon'', JStr ''DO NOT BOOK AFTER 8AM'']) = None"
  using restriction_examples(5) restriction_examples(4) restriction_examples(1)
        restriction_examples(3) restriction_examples(6) restriction_examples_more(2)
  by (intro conjI) assumption+

text \<open>
  Claim C6, amended. The parser honours the first note whose upper-cased text
  contains \<open>DO NOT BOOK AFTER\<close>, whether or not that note has a
  \<^verbatim>\<open><digits><AM|PM>\<close>, and no other: notes before it that do not contain the phrase
  and all notes after it do not change the result. In that note the leftmost
  \<^verbatim>\<open><digits><AM|PM>\<close>, wherever it stands (also before the phrase), is converted
  by the rule of the specification: 12PM is 12, 12AM is 0, otherwise the hour
  plus 12 for PM and the hour itself for AM (stated for runs of at most 15
  digits, whose value a double holds exactly). The pattern is found in any text
  whose part before the digits has no digit. When no note contains the phrase,
  or the first note that contains it has no pattern, the result is no
  restriction. The three examples of the specification evaluate to 8, 12 and 0.
\<close>

theorem parseTimeRestriction_first_note:
  "isRestrictionNote (JStr s) = (\<exists>u v. toUpperCase s = u @ ''DO NOT BOOK AFTER'' @ v) \<and>
   ((\<forall>n \<in> set pre. \<not> isRestrictionNote n) \<and> isRestrictionNote (JStr r) \<longrightarrow>
      parseTimeRestriction (JArr (pre @ JStr r # post)) = parseTimeRestriction (JArr [JStr r])) \<and>
   (isRestrictionNote (JStr r) \<and> regexMatch r = Some (ds, p) \<and> length ds \<le> 15 \<longrightarrow>
      parseTimeRestriction (JArr [JStr r])
        = Some (spec_hour24 (parseInt ds) (toUpperCase p = ''PM''))) \<and>
   (list_all (\<lambda>c. \<not> isDigit c) a \<and> ds' \<noteq> [] \<and> list_all isDigit ds' \<and> isPeriod p' \<longrightarrow>
      regexMatch (a @ ds' @ p' @ z) = Some (ds', p')) \<and>
   ((\<forall>n \<in> set ns. \<not> isRestrictionNote n) \<longrightarrow> parseTimeRestriction (JArr ns) = None) \<and>
   (isRestrictionNote (JStr r') \<and> regexMatch r' = None \<longrightarrow>
      parseTimeRestriction (JArr [JStr r']) = None) \<and>
   (k < 10 ^ 15 \<longrightarrow> parseInt (toString k) = k) \<and>
   parseTimeRestriction (JArr [JStr ''DO NOT BOOK AFTER 8AM'']) = Some 8 \<and>
   parseTimeRestriction (JArr [JStr ''DO NOT BOOK AFTER 12PM'']) = Some 12 \<and>
   parseTimeRestriction (JArr [JStr ''DO NOT BOOK AFTER 12AM'']) = Some 0 \<and>
   parseTimeRestriction (JArr [JStr ''Arrive 10AM. DO NOT BOOK AFTER 3PM'']) = Some 10"
proof -
  have e: "\<forall>n \<in> set ([]::jsval list). \<not> isRestrictionNote n" by simp
  have phrase: "isRestrictionNote (JStr s) = (\<exists>u v. toUpperCase s = u @ ''DO NOT BOOK AFTER'' @ v)"
    by (simp only: isRestrictionNote_def jsval.case includes_str_iff)
  have first: "(\<forall>n \<in> set pre. \<not> isRestrictionNote n) \<and> isRestrictionNote (JStr r) \<longrightarrow>
      parseTimeRestriction (JArr (pre @ JStr r # post)) = parseTimeRestriction (JArr [JStr r])"
  proof (intro impI, elim conjE)
    assume pre: "\<forall>n \<in> set pre. \<not> isRestrictionNote n" and r: "isRestrictionNote (JStr r)"
    show "parseTimeRestriction (JArr (pre @ JStr r # post)) = parseTimeRestriction (JArr [JStr r])"
      using parse_first_mention [OF pre r, of post]
            parse_first_mention [OF e r, of "[]"]
      by simp
  qed
  have conv: "isRestrictionNote (JStr r) \<and> regexMatch r = Some (ds, p) \<and> length ds \<le> 15 \<longrightarrow>
      parseTimeRestriction (JArr [JStr r])
        = Some (spec_hour24 (parseInt ds) (toUpperCase p = ''PM''))"
  proof (intro impI, elim conjE)
    assume r: "isRestrictionNote (JStr r)" and m: "regexMatch r = Some (ds, p)"
    from regexMatch_sound [OF m] have per: "isPeriod p" by blast
    show "parseTimeRestriction (JArr [JStr r])
        = Some (spec_hour24 (parseInt ds) (toUpperCase p = ''PM''))"
      using parse_first_mention [OF e r, of "[]"]
      by (simp add: m to24h_spec [OF per])
  qed
  have pat: "list_all (\<lambda>c. \<not> isDigit c) a \<and> ds' \<noteq> [] \<and> list_all isDigit ds' \<and> isPeriod p' \<longrightarrow>
      regexMatch (a @ ds' @ p' @ z) = Some (ds', p')"
    using regexMatch_digit_free_prefix [of a ds' p' z] by blast
  have none: "(\<forall>n \<in> set ns. \<not> isRestrictionNote n) \<longrightarrow> parseTimeRestriction (JArr ns) = None"
    using parse_no_mention [of ns] by blast
  have nopat: "isRestrictionNote (JStr r') \<and> regexMatch r' = None \<longrightarrow>
      parseTimeRestriction (JArr [JStr r']) = None"
  proof (intro impI, elim conjE)
    assume r: "isRestrictionNote (JStr r')" and m: "regexMatch r' = None"
    show "parseTimeRestriction (JArr [JStr r']) = None"
      using parse_first_mention [OF e r, of "[]"] by (simp add: m)
  qed
  have dec: "k < 10 ^ 15 \<longrightarrow> parseInt (toString k) = k"
    by (simp add: parseInt_toString)
  show ?thesis
    using phrase first conv pat none nopat dec restriction_examples(6-8)
          restriction_examples_more(1)
    by (intro conjI) assumption+
qed

theorem parseTimeRestriction_first_note_witness:
  "\<not> isRestrictionNote (JStr ''SELECT'') \<and>
   isRestrictionNote (JStr ''DO NOT BOOK AFTER 8AM'') \<and>
   regexMatch ''DO NOT BOOK AFTER 8AM'' = Some (''8'', ''AM'') \<and>
   length ''8'' \<le> 15 \<and>
   parseTimeRestriction
     (JArr [JStr ''SELECT'', JStr ''DO NOT BOOK AFTER 8AM'', JStr ''do not book after 9pm''])
     = Some 8 \<and>
   parseTimeRestriction (JArr [JStr ''SELECT'']) = None \<and>
   isRestrictionNote (JStr ''DO NOT BOOK AFTER noon'') \<and>
   regexMatch ''DO NOT BOOK AFTER noon'' = None \<and>
   parseTimeRestriction (JArr [JStr ''DO NOT BOOK AFTER noon'']) = None \<and>
   (18::nat) < 10 ^ 15 \<and>
   parseInt (toString 18) = 18"
proof -
  have pre: "\<forall>n \<in> set [JStr ''SELECT'']. \<not> isRestrictionNote n"
    by (simp add: restriction_examples(2))
  note r = restriction_examples(1)
  note m = restriction_examples(3)
  have len: "length ''8'' \<le> 15" by simp
  have k: "(18::nat) < 10 ^ 15" by simp
  note inst = parseTimeRestriction_first_note
      [where pre = "[JStr ''SELECT'']" and r = "''DO NOT BOOK AFTER 8AM''"
         and post = "[JStr ''do not book after 9pm'']" and ds = "''8''" and p = "''AM''"
         and ns = "[JStr ''SELECT'']" and r' = "''DO NOT BOOK AFTER noon''" and k = 18]
  note first = inst [THEN conjunct2, THEN conjunct1, THEN mp, OF conjI, OF pre r]
  note conv = inst [THEN conjunct2, THEN conjunct2, THEN conjunct1, THEN mp, OF conjI,
                    OF r conjI, OF m len]
  note rest4 = inst [THEN conjunct2, THEN conjunct2, THEN conjunct2, THEN conjunct2]
  note none = rest4 [THEN conjunct1, THEN mp, OF pre]
  note nopat = rest4 [THEN conjunct2, THEN conjunct1, THEN mp, OF conjI,
                      OF restriction_examples(5) restriction_examples(4)]
  note dec = rest4 [THEN conjunct2, THEN conjunct2, THEN conjunct1, THEN mp, OF k]
  have "parseTimeRestriction
     (JArr [JStr ''SELECT'', JStr ''DO NOT BOOK AFTER 8AM'', JStr ''do not book after 9pm''])
     = parseTimeRestriction
     (JArr ([JStr ''SELECT''] @ JStr ''DO NOT BOOK AFTER 8AM'' # [JStr ''do not book after 9pm'']))"
    by (simp only: append.simps)
  also have "\<dots> = parseTimeRestriction (JArr [JStr ''DO NOT BOOK AFTER 8AM''])"
    by (rule first)
  also have "\<dots> = Some (spec_hour24 (parseInt ''8'') (toUpperCase ''AM'' = ''PM''))"
    by (rule conv)
  also have "\<dots> = Some 8"
    by (simp add: spec_hour24_def parseInt_def digitValue_def toUpperCase_def toUpperChar_def)
  finally have v: "parseTimeRestriction
     (JArr [JStr ''SELECT'', JStr ''DO NOT BOOK AFTER 8AM'', JStr ''do not book after 9pm''])
     = Some 8" .
  show ?thesis
    using restriction_examples(2) r m len v none restriction_examples(5)
          restriction_examples(4) nopat k dec
    by (intro conjI) assumption+
qed

text \<open>
  Claim C10. \<open>parseTimeRestriction\<close> returns \<^verbatim>\<open>null\<close> and raises nothing for
  \<^verbatim>\<open>null\<close>, \<^verbatim>\<open>undefined\<close> and every other value that is not an array, for an array
  with no string that contains \<open>DO NOT BOOK AFTER\<close> in upper case, and for an array
  whose first such note has no \<^verbatim>\<open><digits><AM|PM>\<close> anywhere (whatever notes follow).
  \<open>violatesTimeRestriction\<close> returns \<^verbatim>\<open>false\<close> for a service whose notes give no
  restriction, whatever the time value is.
\<close>

theorem parseTimeRestriction_total:
  "parseTimeRestriction JNull = None \<and>
   parseTimeRestriction JUndefined = None \<and>
   parseTimeRestriction (JBool bv) = None \<and>
   parseTimeRestriction (JNum x) = None \<and>
   parseTimeRestriction (JStr s) = None \<and>
   ((\<forall>n \<in> set ns. \<forall>s'. n = JStr s' \<longrightarrow> \<not> includes_str (toUpperCase s') ''DO NOT BOOK AFTER'')
      \<longrightarrow> parseTimeRestriction (JArr ns) = None) \<and>
   ((\<forall>n \<in> set pre. \<not> isRestrictionNote n) \<and> isRestrictionNote (JStr r) \<and>
    \<not> (\<exists>a ds p z. r = a @ ds @ p @ z \<and> ds \<noteq> [] \<and> list_all isDigit ds \<and> isPeriod p)
      \<longrightarrow> parseTimeRestriction (JArr (pre @ JStr r # post)) = None) \<and>
   (parseTimeRestriction (svc_notes svc) = None \<longrightarrow> violatesTimeRestriction svc t = Inr False)"
proof -
  have nonarr: "parseTimeRestriction JNull = None" "parseTimeRestriction JUndefined = None"
    "parseTimeRestriction (JBool bv) = None" "parseTimeRestriction (JNum x) = None"
    "parseTimeRestriction (JStr s) = None"
    by (simp_all add: parseTimeRestriction_def)
  have nophrase: "(\<forall>n \<in> set ns. \<forall>s'. n = JStr s' \<longrightarrow>
        \<not> includes_str (toUpperCase s') ''DO NOT BOOK AFTER'')
      \<longrightarrow> parseTimeRestriction (JArr ns) = None"
  proof
    assume h: "\<forall>n \<in> set ns. \<forall>s'. n = JStr s' \<longrightarrow>
        \<not> includes_str (toUpperCase s') ''DO NOT BOOK AFTER''"
    have "\<forall>n \<in> set ns. \<not> isRestrictionNote n"
    proof
      fix n assume "n \<in> set ns"
      with h show "\<not> isRestrictionNote n"
        by (cases n) (simp_all add: isRestrictionNote_def)
    qed
    then show "parseTimeRestriction (JArr ns) = None"
      by (rule parse_no_mention)
  qed
  have nopattern: "(\<forall>n \<in> set pre. \<not> isRestrictionNote n) \<and> isRestrictionNote (JStr r) \<and>
    \<not> (\<exists>a ds p z. r = a @ ds @ p @ z \<and> ds \<noteq> [] \<and> list_all isDigit ds \<and> isPeriod p)
      \<longrightarrow> parseTimeRestriction (JArr (pre @ JStr r # post)) = None"
  proof (intro impI, elim conjE)
    assume pre: "\<forall>n \<in> set pre. \<not> isRestrictionNote n" and r: "isRestrictionNote (JStr r)"
      and no: "\<not> (\<exists>a ds p z. r = a @ ds @ p @ z \<and> ds \<noteq> [] \<and> list_all isDigit ds \<and> isPeriod p)"
    from no have "regexMatch r = None"
      by (rule regexMatch_None_iff [THEN iffD2])
    then show "parseTimeRestriction (JArr (pre @ JStr r # post)) = None"
      by (simp add: parse_first_mention [OF pre r])
  qed
  have viol: "parseTimeRestriction (svc_notes svc) = None \<longrightarrow>
      violatesTimeRestriction svc t = Inr False"
    using violates_no_restriction [of svc t] by blast
  show ?thesis
    using nonarr nophrase nopattern viol by (intro conjI) assumption+
qed

theorem parseTimeRestriction_total_witness:
  "\<not> includes_str (toUpperCase ''SELECT'') ''DO NOT BOOK AFTER'' \<and>
   parseTimeRestriction (JArr [JStr ''SELECT'', JNum 5, JNull]) = None \<and>
   isRestrictionNote (JStr ''DO NOT BOOK AFTER noon'') \<and>
   regexMatch ''DO NOT BOOK AFTER noon'' = None \<and>
   parseTimeRestriction
     (JArr [JStr ''SELECT'', JStr ''DO NOT BOOK AFTER noon'', JStr ''DO NOT BOOK AFTER 8AM''])
     = None \<and>
   parseTimeRestriction (svc_notes (sample_service\<lparr>svc_notes := JNull\<rparr>)) = None \<and>
   violatesTimeRestriction (sample_service\<lparr>svc_notes := JNull\<rparr>) JNull = Inr False"
proof -
  have sel: "\<not> includes_str (toUpperCase ''SELECT'') ''DO NOT BOOK AFTER''"
    using restriction_examples(2) by (simp add: isRestrictionNote_def)
  have h1: "\<forall>n \<in> set [JStr ''SELECT'', JNum 5, JNull]. \<forall>s'. n = JStr s' \<longrightarrow>
              \<not> includes_str (toUpperCase s') ''DO NOT BOOK AFTER''"
    using sel by simp
  have pre: "\<forall>n \<in> set [JStr ''SELECT'']. \<not> isRestrictionNote n"
    by (simp add: restriction_examples)
  note r = restriction_examples(5)
  have no: "\<not> (\<exists>a ds p z. ''DO NOT BOOK AFTER noon'' = a @ ds @ p @ z \<and> ds \<noteq> [] \<and>
              list_all isDigit ds \<and> isPeriod p)"
    using restriction_examples(4) by (rule regexMatch_None_iff [THEN iffD1])
  have nn: "parseTimeRestriction (svc_notes (sample_service\<lparr>svc_notes := JNull\<rparr>)) = None"
    by (simp add: parseTimeRestriction_def)
  note inst = parseTimeRestriction_total
      [where ns = "[JStr ''SELECT'', JNum 5, JNull]" and pre = "[JStr ''SELECT'']"
         and r = "''DO NOT BOOK AFTER noon''" and post = "[JStr ''DO NOT BOOK AFTER 8AM'']"
         and svc = "sample_service\<lparr>svc_notes := JNull\<rparr>" and t = JNull]
  note rest5 = inst [THEN conjunct2, THEN conjunct2, THEN conjunct2, THEN conjunct2,
                     THEN conjunct2]
  note a = rest5 [THEN conjunct1, THEN mp, OF h1]
  note b0 = rest5 [THEN conjunct2, THEN conjunct1, THEN mp, OF conjI, OF pre conjI, OF r no]
  note c = rest5 [THEN conjunct2, THEN conjunct2, THEN mp, OF nn]
  have b: "parseTimeRestriction
     (JArr [JStr ''SELECT'', JStr ''DO NOT BOOK AFTER noon'', JStr ''DO NOT BOOK AFTER 8AM''])
     = None"
    using b0 by (simp only: append.simps)
  show ?thesis
    using sel a r restriction_examples(4) b nn c by (intro conjI) assumption+
qed

section \<open>Warnings, validation and submission\<close>


lemma submittedData_fields:
  "date (submittedData fs svc d t) = d"
  "time (submittedData fs svc d t) = t"
  by (simp_all add: submittedData_def)


lemma sample_state_fields:
  "selectedService sample_state = Some sample_service"
  "selectedDate sample_state = Some ''2025-11-15''"
  "selectedTime sample_state = Some ''09:00''"
  by (simp_all add: sample_state_def)



lemma find_hd_filter:
  "find P xs = Some x \<Longrightarrow> filter P xs \<noteq> [] \<and> hd (filter P xs) = x \<and> P x"
  by (induction xs) (auto split: if_splits)

lemma handleBookingSubmit_requests:
  "(requests (handleBookingSubmit e fs state st) \<noteq> []) =
     (list_all validateField (filter field_required fs) \<and> truthy (selectedDate state) \<and>
      truthy (selectedTime state) \<and> selectedService state \<noteq> None)"
proof (cases "list_all validateField (filter field_required fs) \<and>
              truthy (selectedDate state) \<and> truthy (selectedTime state)")
  case False
  then show ?thesis
    by (auto simp: handleBookingSubmit_invalid)
next
  case True
  then have v: "list_all validateField (filter field_required fs)"
    and td: "truthy (selectedDate state)" and tt: "truthy (selectedTime state)"
    by simp_all
  show ?thesis
  proof (cases "selectedService state")
    case None
    then show ?thesis
      using v td tt by (simp add: handleBookingSubmit_no_service)
  next
    case (Some svc)
    from td obtain c cs where d: "selectedDate state = Some (c # cs)"
      by (auto simp: truthy_Some)
    from tt obtain c' cs' where t: "selectedTime state = Some (c' # cs')"
      by (auto simp: truthy_Some)
    have "requests (handleBookingSubmit e fs state st)
            = [PostBookings (submittedData fs svc (c # cs) (c' # cs'))]"
      by (simp add: handleBookingSubmit_valid [OF v Some d _ t])
    then show ?thesis
      using v td tt Some by simp
  qed
qed

lemma fieldError_required:
  assumes "field_required f"
  shows "validateField f =
     (trim (field_value f) \<noteq> [] \<and>
      (field_type f = ''email'' \<longrightarrow> emailRegex_test (trim (field_value f))) \<and>
      (field_type f = ''tel'' \<longrightarrow> phoneRegex_test (trim (field_value f)) \<and>
          10 \<le> length (filter isDigit (trim (field_value f)))))"
  using assms by (auto simp: validateField_def fieldError_def Let_def)

lemma invalid_email_field:
  assumes "field_required f" "field_type f = ''email''" "field_value f = ''not-an-email''"
  shows "fieldError f = ''Please enter a valid email address''"
  using assms
  by (simp add: fieldError_def Let_def trim_def isSpace_def emailRegex_test_def)

lemma missing_required_field:
  assumes "field_required f" "trim (field_value f) = []"
  shows "fieldError f = ''This field is required''"
  using assms by (simp add: fieldError_def Let_def)

text \<open>
  Claim C8. When a required field fails validation, or no date or no time is
  selected, \<open>handleBookingSubmit\<close> ends without passing any request to the gateway
  and leaves storage as it was. The error of the first failing required field is
  the first of the errors shown. A required e-mail field holding \<open>not-an-email\<close>
  and a required field left empty both fail.
\<close>

theorem validation_failure_aborts:
  "(\<not> (list_all validateField (filter field_required fs) \<and>
        truthy (selectedDate state) \<and> truthy (selectedTime state)) \<longrightarrow>
      requests (handleBookingSubmit e fs state st) = [] \<and>
      storage_after (handleBookingSubmit e fs state st) = st \<and>
      ended (handleBookingSubmit e fs state st) = Aborted) \<and>
   (find (\<lambda>f. \<not> validateField f) (filter field_required fs) = Some f \<longrightarrow>
      fieldError f \<noteq> [] \<and>
      field_errors (handleBookingSubmit e fs state st) \<noteq> [] \<and>
      hd (field_errors (handleBookingSubmit e fs state st)) = (field_name f, fieldError f) \<and>
      requests (handleBookingSubmit e fs state st) = [] \<and>
      storage_after (handleBookingSubmit e fs state st) = st \<and>
      ended (handleBookingSubmit e fs state st) = Aborted) \<and>
   (field_required g \<and> field_type g = ''email'' \<and> field_value g = ''not-an-email'' \<longrightarrow>
      \<not> validateField g \<and> fieldError g = ''Please enter a valid email address'') \<and>
   (field_required g \<and> trim (field_value g) = [] \<longrightarrow>
      \<not> validateField g \<and> fieldError g = ''This field is required'')"
proof -
  have abort: "\<not> (list_all validateField (filter field_required fs) \<and>
        truthy (selectedDate state) \<and> truthy (selectedTime state)) \<longrightarrow>
      requests (handleBookingSubmit e fs state st) = [] \<and>
      storage_after (handleBookingSubmit e fs state st) = st \<and>
      ended (handleBookingSubmit e fs state st) = Aborted"
    by (simp add: handleBookingSubmit_invalid)
  have first: "find (\<lambda>f. \<not> validateField f) (filter field_required fs) = Some f \<longrightarrow>
      fieldError f \<noteq> [] \<and>
      field_errors (handleBookingSubmit e fs state st) \<noteq> [] \<and>
      hd (field_errors (handleBookingSubmit e fs state st)) = (field_name f, fieldError f) \<and>
      requests (handleBookingSubmit e fs state st) = [] \<and>
      storage_after (handleBookingSubmit e fs state st) = st \<and>
      ended (handleBookingSubmit e fs state st) = Aborted"
  proof
    assume fnd: "find (\<lambda>f. \<not> validateField f) (filter field_required fs) = Some f"
    from find_hd_filter [OF fnd]
    have ne: "filter (\<lambda>f. \<not> validateField f) (filter field_required fs) \<noteq> []"
      and hd: "hd (filter (\<lambda>f. \<not> validateField f) (filter field_required fs)) = f"
      and bad: "\<not> validateField f"
      by simp_all
    from ne have "\<not> list_all validateField (filter field_required fs)"
      by (auto simp: list_all_iff filter_empty_conv)
    then have inv: "\<not> (list_all validateField (filter field_required fs) \<and>
        truthy (selectedDate state) \<and> truthy (selectedTime state))"
      by simp
    note eq = handleBookingSubmit_invalid [OF inv, of e st]
    have 1: "fieldError f \<noteq> []"
      using bad by (simp add: validateField_def)
    have 2: "field_errors (handleBookingSubmit e fs state st) \<noteq> []"
      using ne by (simp add: eq)
    have 3: "hd (field_errors (handleBookingSubmit e fs state st)) = (field_name f, fieldError f)"
      using ne hd by (simp add: eq hd_map)
    have 4: "requests (handleBookingSubmit e fs state st) = []"
      "storage_after (handleBookingSubmit e fs state st) = st"
      "ended (handleBookingSubmit e fs state st) = Aborted"
      by (simp_all add: eq)
    from 1 2 3 4 show "fieldError f \<noteq> [] \<and>
      field_errors (handleBookingSubmit e fs state st) \<noteq> [] \<and>
      hd (field_errors (handleBookingSubmit e fs state st)) = (field_name f, fieldError f) \<and>
      requests (handleBookingSubmit e fs state st) = [] \<and>
      storage_after (handleBookingSubmit e fs state st) = st \<and>
      ended (handleBookingSubmit e fs state st) = Aborted"
      by (intro conjI) assumption+
  qed
  have email: "field_required g \<and> field_type g = ''email'' \<and> field_value g = ''not-an-email'' \<longrightarrow>
      \<not> validateField g \<and> fieldError g = ''Please enter a valid email address''"
    by (auto simp: validateField_def invalid_email_field)
  have missing: "field_required g \<and> trim (field_value g) = [] \<longrightarrow>
      \<not> validateField g \<and> fieldError g = ''This field is required''"
    by (auto simp: validateField_def missing_required_field)
  show ?thesis
    using abort first email missing by (intro conjI) assumption+
qed

lemma invalid_email_form_fields:
  "map validateField (filter field_required invalid_email_form) = [True, True, True, False]"
  "map fieldError (filter field_required invalid_email_form)
     = [[], [], [], ''Please enter a valid email address'']"
  "map field_name (filter field_required invalid_email_form)
     = [''service'', ''name'', ''phone'', ''email'']"
  by (simp_all add: invalid_email_form_def validateField_def fieldError_def trim_def isSpace_def
        emailRegex_test_def phoneRegex_test_def phoneChar_def isDigit_def)

theorem validation_failure_aborts_witness:
  "map validateField (filter field_required invalid_email_form) = [True, True, True, False] \<and>
   requests (handleBookingSubmit sample_env invalid_email_form sample_state empty_storage) = [] \<and>
   storage_after (handleBookingSubmit sample_env invalid_email_form sample_state empty_storage)
     = empty_storage \<and>
   ended (handleBookingSubmit sample_env invalid_email_form sample_state empty_storage) = Aborted"
proof -
  have "list_all validateField (filter field_required invalid_email_form)
          = list_all id (map validateField (filter field_required invalid_email_form))"
    by (simp add: list_all_iff)
  then have nv: "\<not> list_all validateField (filter field_required invalid_email_form)"
    by (simp add: invalid_email_form_fields(1))
  then have bad: "\<not> (list_all validateField (filter field_required invalid_email_form) \<and>
        truthy (selectedDate sample_state) \<and> truthy (selectedTime sample_state))"
    by simp
  note inst = validation_failure_aborts
      [where fs = invalid_email_form and state = sample_state and e = sample_env
         and st = empty_storage]
  note ab = inst [THEN conjunct1, THEN mp, OF bad]
  note ab1 = ab [THEN conjunct1]
  note ab2 = ab [THEN conjunct2, THEN conjunct1]
  note ab3 = ab [THEN conjunct2, THEN conjunct2]
  show ?thesis
    using invalid_email_form_fields(1) ab1 ab2 ab3 by (intro conjI) assumption+
qed

section \<open>What the submit handler checks\<close>

lemma taken_storage_facts:
  "loadBookings taken_storage = [sample_booking]"
  "fst (getBlackoutDates [] taken_storage) = [''2025-11-15'']"
  by (simp_all add: taken_storage_def loadBookings_def getBlackoutDates_def)

text \<open>
  Claim C9 fails on the code. In \<open>taken_storage\<close> the date 2025-11-15 is a blackout
  date and its 09:00 slot is already booked, so \<open>generateTimeSlots\<close> gives that slot
  as unavailable. A submission for that date and time with a valid form is
  nevertheless posted and stored: the handler checks neither the blackout dates
  nor the availability.
\<close>

theorem submit_blocked_taken_slot_counterexample:
  "fst (getBlackoutDates [] taken_storage) = [''2025-11-15''] \<and>
   slots (generateTimeSlots taken_storage ''2025-11-15'') ! 2 =
     \<lparr>slot_time = ''09:00'', available = False, label = ''9:00 AM''\<rparr> \<and>
   selectedDate sample_state = Some ''2025-11-15'' \<and>
   selectedTime sample_state = Some ''09:00'' \<and>
   length (requests (handleBookingSubmit sample_env sample_form sample_state taken_storage)) = 1 \<and>
   map date (loadBookings (storage_after
      (handleBookingSubmit sample_env sample_form sample_state taken_storage)))
     = [''2025-11-15'', ''2025-11-15''] \<and>
   map time (loadBookings (storage_after
      (handleBookingSubmit sample_env sample_form sample_state taken_storage)))
     = [''09:00'', ''09:00''] \<and>
   map status (loadBookings (storage_after
      (handleBookingSubmit sample_env sample_form sample_state taken_storage)))
     = [deposit_pending, deposit_pending]"
proof -
  have slot: "slots (generateTimeSlots taken_storage ''2025-11-15'') ! 2 =
     \<lparr>slot_time = ''09:00'', available = False, label = ''9:00 AM''\<rparr>"
    by (simp add: generateTimeSlots_slots upt_7_19 slotAt_def hourTime_values
          taken_storage_facts sample_booking_fields formatTimeLabel_0900)
  note eq = handleBookingSubmit_valid
      [OF sample_form_valid sample_state_fields(1) sample_state_fields(2) _ sample_state_fields(3),
       of sample_env taken_storage]
  have stored: "loadBookings (storage_after
      (handleBookingSubmit sample_env sample_form sample_state taken_storage))
     = [sample_booking,
        createdBooking sample_env
          (submittedData sample_form sample_service ''2025-11-15'' ''09:00'')]"
    by (simp add: eq taken_storage_facts)
  have req: "length (requests (handleBookingSubmit sample_env sample_form sample_state
      taken_storage)) = 1"
    by (simp add: eq)
  have m: "map date (loadBookings (storage_after
      (handleBookingSubmit sample_env sample_form sample_state taken_storage)))
     = [''2025-11-15'', ''2025-11-15'']"
    "map time (loadBookings (storage_after
      (handleBookingSubmit sample_env sample_form sample_state taken_storage)))
     = [''09:00'', ''09:00'']"
    "map status (loadBookings (storage_after
      (handleBookingSubmit sample_env sample_form sample_state taken_storage)))
     = [deposit_pending, deposit_pending]"
    by (simp_all add: stored sample_booking_fields createdBooking_fields submittedData_fields)
  show ?thesis
    using taken_storage_facts(2) slot sample_state_fields(2,3) req m
    by (intro conjI) assumption+
qed

text \<open>
  Claim C9, amended. \<open>handleBookingSubmit\<close> validates every required control of the
  form, in form order: its trimmed value must not be empty, a control of type
  \<open>email\<close> must match the e-mail pattern, a control of type \<open>tel\<close> must match the
  phone pattern and hold at least ten digits. Then it checks that a date is
  selected and that a time is selected. A request reaches the gateway exactly when
  all of this passes and a service is selected. Whether it does is the same for
  every storage: the handler does not look the service up in the catalog, does not
  test the date against the blackout dates, and does not test the time against the
  availability.
\<close>

theorem submit_checks:
  "(requests (handleBookingSubmit e fs state st) \<noteq> []) =
     (list_all validateField (filter field_required fs) \<and> truthy (selectedDate state) \<and>
      truthy (selectedTime state) \<and> selectedService state \<noteq> None) \<and>
   (requests (handleBookingSubmit e fs state st') = []) =
     (requests (handleBookingSubmit e fs state st) = []) \<and>
   field_errors (handleBookingSubmit e fs state st) =
     map (\<lambda>f. (field_name f, fieldError f))
       (filter (\<lambda>f. \<not> validateField f) (filter field_required fs)) \<and>
   (field_required f \<longrightarrow>
      validateField f =
        (trim (field_value f) \<noteq> [] \<and>
         (field_type f = ''email'' \<longrightarrow> emailRegex_test (trim (field_value f))) \<and>
         (field_type f = ''tel'' \<longrightarrow> phoneRegex_test (trim (field_value f)) \<and>
             10 \<le> length (filter isDigit (trim (field_value f))))))"
proof -
  have reach: "(requests (handleBookingSubmit e fs state st) \<noteq> []) =
     (list_all validateField (filter field_required fs) \<and> truthy (selectedDate state) \<and>
      truthy (selectedTime state) \<and> selectedService state \<noteq> None)"
    by (rule handleBookingSubmit_requests)
  have indep: "(requests (handleBookingSubmit e fs state st') = []) =
     (requests (handleBookingSubmit e fs state st) = [])"
    using handleBookingSubmit_requests [of e fs state st]
          handleBookingSubmit_requests [of e fs state st']
    by blast
  have shown: "field_errors (handleBookingSubmit e fs state st) =
     map (\<lambda>f. (field_name f, fieldError f))
       (filter (\<lambda>f. \<not> validateField f) (filter field_required fs))"
    by (simp add: handleBookingSubmit_def Let_def split: option.splits sum.splits prod.splits)
  have field: "field_required f \<longrightarrow>
      validateField f =
        (trim (field_value f) \<noteq> [] \<and>
         (field_type f = ''email'' \<longrightarrow> emailRegex_test (trim (field_value f))) \<and>
         (field_type f = ''tel'' \<longrightarrow> phoneRegex_test (trim (field_value f)) \<and>
             10 \<le> length (filter isDigit (trim (field_value f)))))"
    using fieldError_required [of f] by blast
  show ?thesis
    using reach indep shown field by (intro conjI) assumption+
qed

theorem submit_checks_witness:
  "field_required (sample_form ! 3) \<and>
   field_type (sample_form ! 3) = ''email'' \<and>
   emailRegex_test (trim (field_value (sample_form ! 3))) \<and>
   validateField (sample_form ! 3) \<and>
   list_all validateField (filter field_required sample_form) \<and>
   requests (handleBookingSubmit sample_env sample_form sample_state empty_storage) \<noteq> []"
proof -
  have f3: "sample_form ! 3 =
      \<lparr>field_name = ''email'', field_type = ''email'', field_required = True,
       field_value = ''jane@example.com''\<rparr>"
    by (simp add: sample_form_def)
  have req: "field_required (sample_form ! 3)"
    and ty: "field_type (sample_form ! 3) = ''email''"
    by (simp_all add: f3)
  have em: "emailRegex_test (trim (field_value (sample_form ! 3)))"
    by (simp add: f3 trim_def isSpace_def emailRegex_test_def)
  have rhs: "trim (field_value (sample_form ! 3)) \<noteq> [] \<and>
         (field_type (sample_form ! 3) = ''email'' \<longrightarrow>
            emailRegex_test (trim (field_value (sample_form ! 3)))) \<and>
         (field_type (sample_form ! 3) = ''tel'' \<longrightarrow>
            phoneRegex_test (trim (field_value (sample_form ! 3))) \<and>
            10 \<le> length (filter isDigit (trim (field_value (sample_form ! 3)))))"
    using em by (simp add: f3 trim_def isSpace_def)
  note inst = submit_checks
      [where f = "sample_form ! 3" and fs = sample_form and state = sample_state
         and e = sample_env and st = empty_storage]
  note fld = inst [THEN conjunct2, THEN conjunct2, THEN conjunct2, THEN mp, OF req]
  from fld rhs have v: "validateField (sample_form ! 3)"
    by (rule iffD2)
  have hyp: "list_all validateField (filter field_required sample_form) \<and>
      truthy (selectedDate sample_state) \<and> truthy (selectedTime sample_state) \<and>
      selectedService sample_state \<noteq> None"
    by (simp add: sample_form_valid sample_state_fields truthy_def)
  from inst [THEN conjunct1] hyp
  have r: "requests (handleBookingSubmit sample_env sample_form sample_state empty_storage) \<noteq> []"
    by (rule iffD2)
  show ?thesis
    using req ty em v sample_form_valid r by (intro conjI) assumption+
qed

end
